theory Spec2Isabelle
  imports Complex_Main "HOL-Library.Multiset"
begin

section \<open>Conventions of the embedding\<close>

text \<open>
  The two translation units embedded here are \<^verbatim>\<open>Initializer.cc\<close> (two-view initialisation)
  and \<^verbatim>\<open>LocalMapping.cc\<close> (the local mapper). C++ \<^verbatim>\<open>int\<close> values are HOL integers
  (all of them are counters far below $2^{31}$) and \<^verbatim>\<open>size_t\<close> indices are naturals.
  Floating-point code is embedded in two ways. In the scorers, in the ratio test of
  \<^verbatim>\<open>Initialize\<close> and in the test of the singular values in \<^verbatim>\<open>ReconstructH\<close>, a value is an
  \<open>fval\<close> and every operation rounds as IEEE 754 arithmetic does (next section). In
  \<^verbatim>\<open>CheckRT\<close>, in the selection among the motion hypotheses and in \<^verbatim>\<open>ReconstructLine\<close>,
  \<^verbatim>\<open>float\<close>/\<^verbatim>\<open>double\<close> values are the real numbers they denote and arithmetic on them
  is exact, so rounding, infinities and NaN are outside the model there. Results of the
  linear algebra collaborator (SVD) are inputs of the functions that consume them.
\<close>

section \<open>Floating-point values\<close>

text \<open>
  A floating-point value is a real number, an infinity or NaN. The two zeros are not
  told apart: the sign of a zero matters only as the sign of the infinity that a division
  by it gives, and the code embedded with this type squares that infinity or compares
  positive operands.
\<close>

datatype fval = Fin real | PInf | NInf | NaN

text \<open>
  Rounding to the nearest value of a binary format with \<open>p\<close> significant bits and least
  exponent \<open>emin\<close>, ties to the even significand: \<open>x\<close> is rounded to a multiple of the
  spacing \<open>q\<close> of the format at the binade of \<open>x\<close>, which is the least binade for
  subnormal \<open>x\<close>. A result beyond the largest value of the format is an infinity.
  \<open>to_float\<close> is binary32 (\<^verbatim>\<open>float\<close>), \<open>to_double\<close> is binary64 (\<^verbatim>\<open>double\<close>). Every
  operation of the source is taken to round once, to the format of its type: no wider
  intermediate precision and no fused multiply-add.
\<close>

definition round_even :: "real \<Rightarrow> int" where
  "round_even y = (let f = \<lfloor>y\<rfloor>; d = y - real_of_int f in
                    if d < 1 / 2 then f else if d > 1 / 2 then f + 1
                    else if even f then f else f + 1)"

definition fexpo :: "int \<Rightarrow> real \<Rightarrow> int" where
  "fexpo emin x = (if x = 0 then emin else max emin \<lfloor>log 2 \<bar>x\<bar>\<rfloor>)"

definition fround :: "nat \<Rightarrow> int \<Rightarrow> real \<Rightarrow> real" where
  "fround p emin x =
     (let q = 2 powr real_of_int (fexpo emin x - int p + 1)
      in real_of_int (round_even (x / q)) * q)"

definition fmax :: "nat \<Rightarrow> int \<Rightarrow> real" where
  "fmax p emax = (2 - 2 powr (1 - real p)) * 2 powr real_of_int emax"

definition to_fval :: "nat \<Rightarrow> int \<Rightarrow> int \<Rightarrow> real \<Rightarrow> fval" where
  "to_fval p emin emax x =
     (let r = fround p emin x in
      if r > fmax p emax then PInf else if r < - fmax p emax then NInf else Fin r)"

definition to_float :: "real \<Rightarrow> fval" where
  "to_float = to_fval 24 (- 126) 127"

definition to_double :: "real \<Rightarrow> fval" where
  "to_double = to_fval 53 (- 1022) 1023"

text \<open>
  The operations, for a rounding \<open>rnd\<close> of the exact result of two finite operands, and
  the comparisons, which are false when an operand is NaN.
\<close>

fun fneg :: "fval \<Rightarrow> fval" where
  "fneg (Fin x) = Fin (- x)"
| "fneg PInf = NInf"
| "fneg NInf = PInf"
| "fneg NaN = NaN"

fun gadd :: "(real \<Rightarrow> fval) \<Rightarrow> fval \<Rightarrow> fval \<Rightarrow> fval" where
  "gadd rnd (Fin x) (Fin y) = rnd (x + y)"
| "gadd rnd NaN b = NaN"
| "gadd rnd a NaN = NaN"
| "gadd rnd PInf NInf = NaN"
| "gadd rnd NInf PInf = NaN"
| "gadd rnd PInf b = PInf"
| "gadd rnd a PInf = PInf"
| "gadd rnd NInf b = NInf"
| "gadd rnd a NInf = NInf"

fun gmul :: "(real \<Rightarrow> fval) \<Rightarrow> fval \<Rightarrow> fval \<Rightarrow> fval" where
  "gmul rnd (Fin x) (Fin y) = rnd (x * y)"
| "gmul rnd NaN b = NaN"
| "gmul rnd a NaN = NaN"
| "gmul rnd (Fin x) PInf = (if x = 0 then NaN else if x > 0 then PInf else NInf)"
| "gmul rnd (Fin x) NInf = (if x = 0 then NaN else if x > 0 then NInf else PInf)"
| "gmul rnd PInf (Fin y) = (if y = 0 then NaN else if y > 0 then PInf else NInf)"
| "gmul rnd NInf (Fin y) = (if y = 0 then NaN else if y > 0 then NInf else PInf)"
| "gmul rnd PInf PInf = PInf"
| "gmul rnd PInf NInf = NInf"
| "gmul rnd NInf PInf = NInf"
| "gmul rnd NInf NInf = PInf"

fun gdiv :: "(real \<Rightarrow> fval) \<Rightarrow> fval \<Rightarrow> fval \<Rightarrow> fval" where
  "gdiv rnd (Fin x) (Fin y) =
     (if y = 0 then (if x = 0 then NaN else if x > 0 then PInf else NInf) else rnd (x / y))"
| "gdiv rnd NaN b = NaN"
| "gdiv rnd a NaN = NaN"
| "gdiv rnd (Fin x) PInf = Fin 0"
| "gdiv rnd (Fin x) NInf = Fin 0"
| "gdiv rnd PInf (Fin y) = (if y \<ge> 0 then PInf else NInf)"
| "gdiv rnd NInf (Fin y) = (if y \<ge> 0 then NInf else PInf)"
| "gdiv rnd PInf PInf = NaN"
| "gdiv rnd PInf NInf = NaN"
| "gdiv rnd NInf PInf = NaN"
| "gdiv rnd NInf NInf = NaN"

fun fgt :: "fval \<Rightarrow> fval \<Rightarrow> bool" where
  "fgt (Fin x) (Fin y) = (x > y)"
| "fgt NaN b = False"
| "fgt a NaN = False"
| "fgt PInf PInf = False"
| "fgt PInf b = True"
| "fgt a PInf = False"
| "fgt NInf b = False"
| "fgt a NInf = True"

definition flt :: "fval \<Rightarrow> fval \<Rightarrow> bool" where
  "flt a b = fgt b a"


text \<open>The operations on two \<^verbatim>\<open>float\<close> operands, which give a \<^verbatim>\<open>float\<close>.\<close>

definition fadd :: "fval \<Rightarrow> fval \<Rightarrow> fval" where
  "fadd = gadd to_float"

definition fsub :: "fval \<Rightarrow> fval \<Rightarrow> fval" where
  "fsub a b = gadd to_float a (fneg b)"

definition fmul :: "fval \<Rightarrow> fval \<Rightarrow> fval" where
  "fmul = gmul to_float"

definition fdiv :: "fval \<Rightarrow> fval \<Rightarrow> fval" where
  "fdiv = gdiv to_float"

text \<open>
  \<^verbatim>\<open>const float y = 1.0/x;\<close> for a \<^verbatim>\<open>float\<close> \<open>x\<close>: the literal is a \<^verbatim>\<open>double\<close>, so \<open>x\<close> is
  widened (exactly), the division is done in binary64, and the quotient is rounded to
  binary32 by the initialisation.
\<close>

fun float_of :: "fval \<Rightarrow> fval" where
  "float_of (Fin x) = to_float x"
| "float_of a = a"

definition one_over :: "fval \<Rightarrow> fval" where
  "one_over x = float_of (gdiv to_double (Fin 1) x)"

text \<open>
  The constants of the source: the \<^verbatim>\<open>float\<close> nearest to 3.841 and to 5.991
  (\<^verbatim>\<open>const float th = 3.841;\<close>), and the \<^verbatim>\<open>double\<close> nearest to 0.40 and to 1.00001 (the
  literals of \<^verbatim>\<open>RH>0.40\<close> and \<^verbatim>\<open>d1/d2<1.00001\<close>).
\<close>

definition float_3_841 :: real where
  "float_3_841 = 8055161 / 2097152"

definition float_5_991 :: real where
  "float_5_991 = 6282019 / 1048576"

definition double_0_40 :: real where
  "double_0_40 = 3602879701896397 / 9007199254740992"

definition double_1_00001 :: real where
  "double_1_00001 = 2251822331683385 / 2251799813685248"

section \<open>Initializer: the scorers\<close>

text \<open>
  A keypoint is its undistorted pixel \<^verbatim>\<open>pt\<close>, a match the pair of indices
  \<^verbatim>\<open>(first, second)\<close> into the keypoints of the reference and of the current frame, a
  3x3 matrix the triple of its rows. An index past the end of a vector is undefined
  behaviour in the source; the model stops with \<open>OutOfRange\<close> there.
\<close>

type_synonym keypoint = "real \<times> real"
type_synonym match = "nat \<times> nat"
type_synonym vec3 = "real \<times> real \<times> real"
type_synonym mat3 = "vec3 \<times> vec3 \<times> vec3"

datatype error = OutOfRange

text \<open>
  The body of the loops over \<^verbatim>\<open>i = 0 .. size-1\<close>: the body gets the index, the
  element and the state, and an error ends the loop.
\<close>

fun for_each :: "(nat \<Rightarrow> 'a \<Rightarrow> 's \<Rightarrow> error + 's) \<Rightarrow> nat \<Rightarrow> 'a list \<Rightarrow> 's \<Rightarrow> error + 's" where
  "for_each body i [] s = Inr s"
| "for_each body i (x # xs) s =
     (case body i x s of Inl e \<Rightarrow> Inl e | Inr s' \<Rightarrow> for_each body (Suc i) xs s')"

subsection \<open>CheckFundamental\<close>

text \<open>
  Distance of \<open>kp2\<close> to the epipolar line \<open>l2 = F21 x1\<close>, over \<open>sigma\<^sup>2\<close>. The entries of the
  matrix, the coordinates and \<open>sigma\<close> are finite \<^verbatim>\<open>float\<close> values.
\<close>

definition chiSquare1_F :: "mat3 \<Rightarrow> real \<Rightarrow> keypoint \<Rightarrow> keypoint \<Rightarrow> fval" where
  "chiSquare1_F F21 sigma kp1 kp2 =
     (case F21 of ((f11, f12, f13), (f21, f22, f23), (f31, f32, f33)) \<Rightarrow>
        let invSigmaSquare = one_over (fmul (Fin sigma) (Fin sigma));
            u1 = Fin (fst kp1); v1 = Fin (snd kp1); u2 = Fin (fst kp2); v2 = Fin (snd kp2);
            a2 = fadd (fadd (fmul (Fin f11) u1) (fmul (Fin f12) v1)) (Fin f13);
            b2 = fadd (fadd (fmul (Fin f21) u1) (fmul (Fin f22) v1)) (Fin f23);
            c2 = fadd (fadd (fmul (Fin f31) u1) (fmul (Fin f32) v1)) (Fin f33);
            num2 = fadd (fadd (fmul a2 u2) (fmul b2 v2)) c2;
            squareDist1 = fdiv (fmul num2 num2) (fadd (fmul a2 a2) (fmul b2 b2))
        in fmul squareDist1 invSigmaSquare)"

text \<open>Distance of \<open>kp1\<close> to the epipolar line \<open>l1 = x2\<^sup>T F21\<close>, over \<open>sigma\<^sup>2\<close>.\<close>

definition chiSquare2_F :: "mat3 \<Rightarrow> real \<Rightarrow> keypoint \<Rightarrow> keypoint \<Rightarrow> fval" where
  "chiSquare2_F F21 sigma kp1 kp2 =
     (case F21 of ((f11, f12, f13), (f21, f22, f23), (f31, f32, f33)) \<Rightarrow>
        let invSigmaSquare = one_over (fmul (Fin sigma) (Fin sigma));
            u1 = Fin (fst kp1); v1 = Fin (snd kp1); u2 = Fin (fst kp2); v2 = Fin (snd kp2);
            a1 = fadd (fadd (fmul (Fin f11) u2) (fmul (Fin f21) v2)) (Fin f31);
            b1 = fadd (fadd (fmul (Fin f12) u2) (fmul (Fin f22) v2)) (Fin f32);
            c1 = fadd (fadd (fmul (Fin f13) u2) (fmul (Fin f23) v2)) (Fin f33);
            num1 = fadd (fadd (fmul a1 u1) (fmul b1 v1)) c1;
            squareDist2 = fdiv (fmul num1 num1) (fadd (fmul a1 a1) (fmul b1 b1))
        in fmul squareDist2 invSigmaSquare)"

text \<open>
  The state of the scoring loops is the running \<^verbatim>\<open>score\<close> and the flags written so
  far; \<^verbatim>\<open>vbMatchesInliers\<close> was resized to the number of matches and entry \<open>i\<close> is
  written in iteration \<open>i\<close>, so the flags are collected in order.
\<close>

definition CheckFundamental_body ::
  "mat3 \<Rightarrow> real \<Rightarrow> keypoint list \<Rightarrow> keypoint list \<Rightarrow> nat \<Rightarrow> match \<Rightarrow> fval \<times> bool list
     \<Rightarrow> error + fval \<times> bool list" where
  "CheckFundamental_body F21 sigma mvKeys1 mvKeys2 i m st =
     (if length mvKeys1 \<le> fst m \<or> length mvKeys2 \<le> snd m then Inl OutOfRange
      else
        let th = Fin float_3_841; thScore = Fin float_5_991;
            score = fst st;
            bIn = True;
            kp1 = mvKeys1 ! fst m; kp2 = mvKeys2 ! snd m;
            chiSquare1 = chiSquare1_F F21 sigma kp1 kp2;
            (bIn, score) = (if fgt chiSquare1 th then (False, score)
                            else (bIn, fadd score (fsub thScore chiSquare1)));
            chiSquare2 = chiSquare2_F F21 sigma kp1 kp2;
            (bIn, score) = (if fgt chiSquare2 th then (False, score)
                            else (bIn, fadd score (fsub thScore chiSquare2)))
        in Inr (score, snd st @ [bIn]))"

definition CheckFundamental ::
  "keypoint list \<Rightarrow> keypoint list \<Rightarrow> match list \<Rightarrow> mat3 \<Rightarrow> real \<Rightarrow> error + fval \<times> bool list" where
  "CheckFundamental mvKeys1 mvKeys2 mvMatches12 F21 sigma =
     for_each (CheckFundamental_body F21 sigma mvKeys1 mvKeys2) 0 mvMatches12 (Fin 0, [])"

subsection \<open>CheckHomography\<close>

text \<open>Reprojection error in the first image, \<open>x2in1 = H12 x2\<close>, over \<open>sigma\<^sup>2\<close>.\<close>

definition chiSquare1_H :: "mat3 \<Rightarrow> real \<Rightarrow> keypoint \<Rightarrow> keypoint \<Rightarrow> fval" where
  "chiSquare1_H H12 sigma kp1 kp2 =
     (case H12 of ((h11inv, h12inv, h13inv), (h21inv, h22inv, h23inv), (h31inv, h32inv, h33inv)) \<Rightarrow>
        let invSigmaSquare = one_over (fmul (Fin sigma) (Fin sigma));
            u1 = Fin (fst kp1); v1 = Fin (snd kp1); u2 = Fin (fst kp2); v2 = Fin (snd kp2);
            w2in1inv = one_over (fadd (fadd (fmul (Fin h31inv) u2) (fmul (Fin h32inv) v2)) (Fin h33inv));
            u2in1 = fmul (fadd (fadd (fmul (Fin h11inv) u2) (fmul (Fin h12inv) v2)) (Fin h13inv)) w2in1inv;
            v2in1 = fmul (fadd (fadd (fmul (Fin h21inv) u2) (fmul (Fin h22inv) v2)) (Fin h23inv)) w2in1inv;
            squareDist1 = fadd (fmul (fsub u1 u2in1) (fsub u1 u2in1))
                               (fmul (fsub v1 v2in1) (fsub v1 v2in1))
        in fmul squareDist1 invSigmaSquare)"

text \<open>Reprojection error in the second image, \<open>x1in2 = H21 x1\<close>, over \<open>sigma\<^sup>2\<close>.\<close>

definition chiSquare2_H :: "mat3 \<Rightarrow> real \<Rightarrow> keypoint \<Rightarrow> keypoint \<Rightarrow> fval" where
  "chiSquare2_H H21 sigma kp1 kp2 =
     (case H21 of ((h11, h12, h13), (h21, h22, h23), (h31, h32, h33)) \<Rightarrow>
        let invSigmaSquare = one_over (fmul (Fin sigma) (Fin sigma));
            u1 = Fin (fst kp1); v1 = Fin (snd kp1); u2 = Fin (fst kp2); v2 = Fin (snd kp2);
            w1in2inv = one_over (fadd (fadd (fmul (Fin h31) u1) (fmul (Fin h32) v1)) (Fin h33));
            u1in2 = fmul (fadd (fadd (fmul (Fin h11) u1) (fmul (Fin h12) v1)) (Fin h13)) w1in2inv;
            v1in2 = fmul (fadd (fadd (fmul (Fin h21) u1) (fmul (Fin h22) v1)) (Fin h23)) w1in2inv;
            squareDist2 = fadd (fmul (fsub u2 u1in2) (fsub u2 u1in2))
                               (fmul (fsub v2 v1in2) (fsub v2 v1in2))
        in fmul squareDist2 invSigmaSquare)"

definition CheckHomography_body ::
  "mat3 \<Rightarrow> mat3 \<Rightarrow> real \<Rightarrow> keypoint list \<Rightarrow> keypoint list \<Rightarrow> nat \<Rightarrow> match
     \<Rightarrow> fval \<times> bool list \<Rightarrow> error + fval \<times> bool list" where
  "CheckHomography_body H21 H12 sigma mvKeys1 mvKeys2 i m st =
     (if length mvKeys1 \<le> fst m \<or> length mvKeys2 \<le> snd m then Inl OutOfRange
      else
        let th = Fin float_5_991;
            score = fst st;
            bIn = True;
            kp1 = mvKeys1 ! fst m; kp2 = mvKeys2 ! snd m;
            chiSquare1 = chiSquare1_H H12 sigma kp1 kp2;
            (bIn, score) = (if fgt chiSquare1 th then (False, score)
                            else (bIn, fadd score (fsub th chiSquare1)));
            chiSquare2 = chiSquare2_H H21 sigma kp1 kp2;
            (bIn, score) = (if fgt chiSquare2 th then (False, score)
                            else (bIn, fadd score (fsub th chiSquare2)))
        in Inr (score, snd st @ [bIn]))"

definition CheckHomography ::
  "keypoint list \<Rightarrow> keypoint list \<Rightarrow> match list \<Rightarrow> mat3 \<Rightarrow> mat3 \<Rightarrow> real
     \<Rightarrow> error + fval \<times> bool list" where
  "CheckHomography mvKeys1 mvKeys2 mvMatches12 H21 H12 sigma =
     for_each (CheckHomography_body H21 H12 sigma mvKeys1 mvKeys2) 0 mvMatches12 (Fin 0, [])"



section \<open>Initializer: triangulation check of a motion hypothesis\<close>

subsection \<open>Vectors and matrices\<close>

definition sub3 :: "vec3 \<Rightarrow> vec3 \<Rightarrow> vec3" where
  "sub3 a b = (case a of (a1, a2, a3) \<Rightarrow> case b of (b1, b2, b3) \<Rightarrow> (a1 - b1, a2 - b2, a3 - b3))"

definition add3 :: "vec3 \<Rightarrow> vec3 \<Rightarrow> vec3" where
  "add3 a b = (case a of (a1, a2, a3) \<Rightarrow> case b of (b1, b2, b3) \<Rightarrow> (a1 + b1, a2 + b2, a3 + b3))"

definition neg3 :: "vec3 \<Rightarrow> vec3" where
  "neg3 a = (case a of (a1, a2, a3) \<Rightarrow> (- a1, - a2, - a3))"

definition dot3 :: "vec3 \<Rightarrow> vec3 \<Rightarrow> real" where
  "dot3 a b = (case a of (a1, a2, a3) \<Rightarrow> case b of (b1, b2, b3) \<Rightarrow> a1 * b1 + a2 * b2 + a3 * b3)"

text \<open>\<^verbatim>\<open>cv::norm\<close>: the Euclidean norm.\<close>

definition norm3 :: "vec3 \<Rightarrow> real" where
  "norm3 a = sqrt (dot3 a a)"

definition transpose3 :: "mat3 \<Rightarrow> mat3" where
  "transpose3 M = (case M of ((a, b, c), (d, e, f), (g, h, i)) \<Rightarrow> ((a, d, g), (b, e, h), (c, f, i)))"

definition mat_vec :: "mat3 \<Rightarrow> vec3 \<Rightarrow> vec3" where
  "mat_vec M v = (case M of (r1, r2, r3) \<Rightarrow> (dot3 r1 v, dot3 r2 v, dot3 r3 v))"

definition mat_mul :: "mat3 \<Rightarrow> mat3 \<Rightarrow> mat3" where
  "mat_mul A B = (case A of (r1, r2, r3) \<Rightarrow> case transpose3 B of (c1, c2, c3) \<Rightarrow>
     ((dot3 r1 c1, dot3 r1 c2, dot3 r1 c3),
      (dot3 r2 c1, dot3 r2 c2, dot3 r2 c3),
      (dot3 r3 c1, dot3 r3 c2, dot3 r3 c3)))"

definition vz :: "vec3 \<Rightarrow> real" where
  "vz a = snd (snd a)"

text \<open>\<^verbatim>\<open>std::vector::resize(n, d)\<close>: cut to \<open>n\<close> elements or fill up with \<open>d\<close>.\<close>

definition resize :: "nat \<Rightarrow> 'a \<Rightarrow> 'a list \<Rightarrow> 'a list" where
  "resize n d xs = take n xs @ replicate (n - length xs) d"

subsection \<open>CheckRT\<close>

text \<open>
  The loop of \<^verbatim>\<open>CheckRT\<close> works on the output vectors \<^verbatim>\<open>vP3D\<close> and \<^verbatim>\<open>vbGood\<close>, the
  local vector \<^verbatim>\<open>vCosParallax\<close> and the counter \<^verbatim>\<open>nGood\<close>.
\<close>

record CheckRT_state =
  vP3D :: "vec3 list"
  vbGood :: "bool list"
  vCosParallax :: "real list"
  nGood :: int

text \<open>
  The cosine of the parallax of a point \<open>p\<close> seen from the camera centres \<open>O1\<close> and
  \<open>O2\<close>, and the squared reprojection error of a point \<open>p\<close>, given in the frame of a
  camera with calibration \<open>K\<close>, against the keypoint \<open>kp\<close>.
\<close>

definition cos_parallax :: "vec3 \<Rightarrow> vec3 \<Rightarrow> vec3 \<Rightarrow> real" where
  "cos_parallax p O1 O2 =
     (let normal1 = sub3 p O1;
          dist1 = norm3 normal1;
          normal2 = sub3 p O2;
          dist2 = norm3 normal2
      in dot3 normal1 normal2 / (dist1 * dist2))"

definition square_error :: "mat3 \<Rightarrow> vec3 \<Rightarrow> keypoint \<Rightarrow> real" where
  "square_error K p kp =
     (case K of ((fx, k12, cx), (k21, fy, cy), k3) \<Rightarrow>
        let invZ = 1.0 / vz p;
            imx = fx * fst p * invZ + cx;
            imy = fy * fst (snd p) * invZ + cy
        in (imx - fst kp) * (imx - fst kp) + (imy - snd kp) * (imy - snd kp))"

text \<open>
  One iteration. \<^verbatim>\<open>Triangulate\<close> solves a 4x4 system by SVD; here it is the function
  \<open>Triangulate\<close> that the caller supplies, giving the point in the frame of camera 1, or
  \<open>None\<close> where the source finds a coordinate that is not finite.
\<close>

definition CheckRT_body ::
  "(keypoint \<Rightarrow> keypoint \<Rightarrow> vec3 option) \<Rightarrow> mat3 \<Rightarrow> vec3 \<Rightarrow> keypoint list \<Rightarrow> keypoint list
     \<Rightarrow> bool list \<Rightarrow> mat3 \<Rightarrow> real \<Rightarrow> nat \<Rightarrow> match \<Rightarrow> CheckRT_state \<Rightarrow> error + CheckRT_state" where
  "CheckRT_body Triangulate R t vKeys1 vKeys2 vbMatchesInliers K th2 i m s =
     (if length vbMatchesInliers \<le> i then Inl OutOfRange
      else if \<not> vbMatchesInliers ! i then Inr s
      else if length vKeys1 \<le> fst m \<or> length vKeys2 \<le> snd m then Inl OutOfRange
      else
        let kp1 = vKeys1 ! fst m; kp2 = vKeys2 ! snd m in
        case Triangulate kp1 kp2 of
          None \<Rightarrow> Inr (s\<lparr>vbGood := (vbGood s)[fst m := False]\<rparr>)
        | Some p3dC1 \<Rightarrow>
            let O1 = (0, 0, 0);
                O2 = neg3 (mat_vec (transpose3 R) t);
                cosParallax = cos_parallax p3dC1 O1 O2
            in
            if vz p3dC1 \<le> 0 \<and> cosParallax < 0.99998 then Inr s
            else
              let p3dC2 = add3 (mat_vec R p3dC1) t in
              if vz p3dC2 \<le> 0 \<and> cosParallax < 0.99998 then Inr s
              else if square_error K p3dC1 kp1 > th2 then Inr s
              else if square_error K p3dC2 kp2 > th2 then Inr s
              else
                let s = s\<lparr>vCosParallax := vCosParallax s @ [cosParallax]\<rparr>;
                    s = s\<lparr>vP3D := (vP3D s)[fst m := p3dC1]\<rparr>;
                    s = s\<lparr>nGood := nGood s + 1\<rparr>
                in
                if cosParallax < 0.99998 then Inr (s\<lparr>vbGood := (vbGood s)[fst m := True]\<rparr>)
                else Inr s)"

text \<open>
  The loop from its initial state: \<^verbatim>\<open>vbGood\<close> all false, \<^verbatim>\<open>vP3D\<close> resized to the
  number of keypoints of frame 1 (new entries are the zero point). The camera matrices
  \<open>P1 = K[I|0]\<close> and \<open>P2 = K[R|t]\<close> are used by the triangulation only, so \<open>Triangulate\<close>
  takes \<open>K\<close>, \<open>R\<close> and \<open>t\<close>.
\<close>

definition CheckRT_loop ::
  "(mat3 \<Rightarrow> mat3 \<Rightarrow> vec3 \<Rightarrow> keypoint \<Rightarrow> keypoint \<Rightarrow> vec3 option) \<Rightarrow> mat3 \<Rightarrow> vec3 \<Rightarrow> keypoint list
     \<Rightarrow> keypoint list \<Rightarrow> match list \<Rightarrow> bool list \<Rightarrow> mat3 \<Rightarrow> vec3 list \<Rightarrow> real
     \<Rightarrow> error + CheckRT_state" where
  "CheckRT_loop Triangulate R t vKeys1 vKeys2 vMatches12 vbMatchesInliers K vP3D0 th2 =
     for_each (CheckRT_body (Triangulate K R t) R t vKeys1 vKeys2 vbMatchesInliers K th2) 0 vMatches12
       \<lparr> vP3D = resize (length vKeys1) (0, 0, 0) vP3D0,
         vbGood = replicate (length vKeys1) False,
         vCosParallax = [],
         nGood = 0 \<rparr>"

text \<open>The statements after the loop, which set \<^verbatim>\<open>parallax\<close>.\<close>

definition CheckRT_parallax :: "CheckRT_state \<Rightarrow> real" where
  "CheckRT_parallax s =
     (if nGood s > 0 then
        let sorted = sort (vCosParallax s);
            idx = nat (min 50 (int (length sorted) - 1))
        in arccos (sorted ! idx) * 180 / pi
      else 0)"

record CheckRT_result =
  res_nGood :: int
  res_vP3D :: "vec3 list"
  res_vbGood :: "bool list"
  res_parallax :: real

definition CheckRT ::
  "(mat3 \<Rightarrow> mat3 \<Rightarrow> vec3 \<Rightarrow> keypoint \<Rightarrow> keypoint \<Rightarrow> vec3 option) \<Rightarrow> mat3 \<Rightarrow> vec3 \<Rightarrow> keypoint list
     \<Rightarrow> keypoint list \<Rightarrow> match list \<Rightarrow> bool list \<Rightarrow> mat3 \<Rightarrow> vec3 list \<Rightarrow> real
     \<Rightarrow> error + CheckRT_result" where
  "CheckRT Triangulate R t vKeys1 vKeys2 vMatches12 vbMatchesInliers K vP3D0 th2 =
     (case CheckRT_loop Triangulate R t vKeys1 vKeys2 vMatches12 vbMatchesInliers K vP3D0 th2 of
        Inl e \<Rightarrow> Inl e
      | Inr s \<Rightarrow> Inr \<lparr> res_nGood = nGood s, res_vP3D = vP3D s, res_vbGood = vbGood s,
                      res_parallax = CheckRT_parallax s \<rparr>)"

text \<open>The number of flags that are set.\<close>

definition count_true :: "bool list \<Rightarrow> nat" where
  "count_true bs = length (filter (\<lambda>b. b) bs)"

section \<open>Initializer: reconstruction from the fundamental matrix and from the homography\<close>

text \<open>
  The in/out parameters \<^verbatim>\<open>R21\<close>, \<^verbatim>\<open>t21\<close>, \<^verbatim>\<open>vP3D\<close> and \<^verbatim>\<open>vbTriangulated\<close> of the two
  reconstruction functions. An empty \<^verbatim>\<open>cv::Mat\<close> is \<open>None\<close>.
\<close>

record reconstruct_io =
  io_R21 :: "mat3 option"
  io_t21 :: "vec3 option"
  io_vP3D :: "vec3 list"
  io_vbTriangulated :: "bool list"

text \<open>
  A line feature is its two end points; the coefficients of the line through them are
  kept in a vector of their own (\<^verbatim>\<open>mvKeyLineFunctions\<close>).
\<close>

record keyline =
  startPointX :: real
  startPointY :: real
  endPointX :: real
  endPointY :: real

text \<open>The members of the \<^verbatim>\<open>Initializer\<close> object that the reconstruction reads.\<close>

record Initializer =
  mvKeys1 :: "keypoint list"
  mvKeys2 :: "keypoint list"
  mvMatches12 :: "match list"
  mK :: mat3
  mSigma2 :: real
  mvKeyLines1 :: "keyline list"
  mvKeyLines2 :: "keyline list"
  mvKeyLineFunctions1 :: "vec3 list"
  mvKeyLineFunctions2 :: "vec3 list"

text \<open>The loop \<^verbatim>\<open>if(vbMatchesInliers[i]) N++;\<close>\<close>

definition count_inliers :: "bool list \<Rightarrow> int" where
  "count_inliers vbMatchesInliers = int (count_true vbMatchesInliers)"

text \<open>\<^verbatim>\<open>static_cast<int>\<close> of a floating-point value truncates towards zero.\<close>

definition static_cast_int :: "real \<Rightarrow> int" where
  "static_cast_int x = (if 0 \<le> x then \<lfloor>x\<rfloor> else \<lceil>x\<rceil>)"

subsection \<open>ReconstructF\<close>

text \<open>
  The part of \<^verbatim>\<open>ReconstructF\<close> after the four calls of \<^verbatim>\<open>CheckRT\<close>: from
  \<^verbatim>\<open>int maxGood = ...\<close> to the end. \<open>c1\<close> to \<open>c4\<close> are what the calls returned for
  \<open>(R1,t1)\<close>, \<open>(R2,t1)\<close>, \<open>(R1,t2)\<close> and \<open>(R2,t2)\<close>. The products \<^verbatim>\<open>0.9*N\<close> and
  \<^verbatim>\<open>0.7*maxGood\<close> are exact here and rounded \<^verbatim>\<open>double\<close> products in the source; the
  rounded \<^verbatim>\<open>0.7*maxGood\<close> can lie below the exact one (for \<^verbatim>\<open>maxGood\<close> 90, say), and then
  the source counts a hypothesis with exactly 70% of the best count as similar, which it
  is not here.
\<close>

definition ReconstructF_select ::
  "int \<Rightarrow> mat3 \<Rightarrow> mat3 \<Rightarrow> vec3 \<Rightarrow> vec3 \<Rightarrow> CheckRT_result \<Rightarrow> CheckRT_result \<Rightarrow> CheckRT_result
     \<Rightarrow> CheckRT_result \<Rightarrow> real \<Rightarrow> int \<Rightarrow> reconstruct_io \<Rightarrow> bool \<times> reconstruct_io" where
  "ReconstructF_select N R1 R2 t1 t2 c1 c2 c3 c4 minParallax minTriangulated io =
     (let nGood1 = res_nGood c1; nGood2 = res_nGood c2;
          nGood3 = res_nGood c3; nGood4 = res_nGood c4;
          maxGood = max nGood1 (max nGood2 (max nGood3 nGood4));
          io = io\<lparr>io_R21 := None\<rparr>;
          io = io\<lparr>io_t21 := None\<rparr>;
          nMinGood = max (static_cast_int (0.9 * real_of_int N)) minTriangulated;
          nsimilar = (0::int);
          nsimilar = (if real_of_int nGood1 > 0.7 * real_of_int maxGood then nsimilar + 1 else nsimilar);
          nsimilar = (if real_of_int nGood2 > 0.7 * real_of_int maxGood then nsimilar + 1 else nsimilar);
          nsimilar = (if real_of_int nGood3 > 0.7 * real_of_int maxGood then nsimilar + 1 else nsimilar);
          nsimilar = (if real_of_int nGood4 > 0.7 * real_of_int maxGood then nsimilar + 1 else nsimilar)
      in
      if maxGood < nMinGood \<or> nsimilar > 1 then (False, io)
      else if maxGood = nGood1 then
        (if res_parallax c1 > minParallax
         then (True, io\<lparr>io_vP3D := res_vP3D c1, io_vbTriangulated := res_vbGood c1,
                         io_R21 := Some R1, io_t21 := Some t1\<rparr>)
         else (False, io))
      else if maxGood = nGood2 then
        (if res_parallax c2 > minParallax
         then (True, io\<lparr>io_vP3D := res_vP3D c2, io_vbTriangulated := res_vbGood c2,
                         io_R21 := Some R2, io_t21 := Some t1\<rparr>)
         else (False, io))
      else if maxGood = nGood3 then
        (if res_parallax c3 > minParallax
         then (True, io\<lparr>io_vP3D := res_vP3D c3, io_vbTriangulated := res_vbGood c3,
                         io_R21 := Some R1, io_t21 := Some t2\<rparr>)
         else (False, io))
      else if maxGood = nGood4 then
        (if res_parallax c4 > minParallax
         then (True, io\<lparr>io_vP3D := res_vP3D c4, io_vbTriangulated := res_vbGood c4,
                         io_R21 := Some R2, io_t21 := Some t2\<rparr>)
         else (False, io))
      else (False, io))"

text \<open>
  The whole function. \<^verbatim>\<open>DecomposeE\<close> (an SVD) is supplied by the caller and gives
  \<open>(R1, R2, t)\<close>; each call of \<^verbatim>\<open>CheckRT\<close> gets a fresh, empty \<^verbatim>\<open>vP3D\<close>.
\<close>

definition ReconstructF ::
  "(mat3 \<Rightarrow> mat3 \<Rightarrow> vec3 \<Rightarrow> keypoint \<Rightarrow> keypoint \<Rightarrow> vec3 option) \<Rightarrow> (mat3 \<Rightarrow> mat3 \<times> mat3 \<times> vec3)
     \<Rightarrow> Initializer \<Rightarrow> bool list \<Rightarrow> mat3 \<Rightarrow> mat3 \<Rightarrow> reconstruct_io \<Rightarrow> real \<Rightarrow> int
     \<Rightarrow> error + bool \<times> reconstruct_io" where
  "ReconstructF Triangulate DecomposeE this vbMatchesInliers F21 K io minParallax minTriangulated =
     (let N = count_inliers vbMatchesInliers;
          E21 = mat_mul (mat_mul (transpose3 K) F21) K;
          (R1, R2, t) = DecomposeE E21;
          t1 = t;
          t2 = neg3 t;
          check = (\<lambda>R t. CheckRT Triangulate R t (mvKeys1 this) (mvKeys2 this) (mvMatches12 this)
                            vbMatchesInliers K [] (4.0 * mSigma2 this))
      in
      case check R1 t1 of Inl e \<Rightarrow> Inl e | Inr c1 \<Rightarrow>
      case check R2 t1 of Inl e \<Rightarrow> Inl e | Inr c2 \<Rightarrow>
      case check R1 t2 of Inl e \<Rightarrow> Inl e | Inr c3 \<Rightarrow>
      case check R2 t2 of Inl e \<Rightarrow> Inl e | Inr c4 \<Rightarrow>
        Inr (ReconstructF_select N R1 R2 t1 t2 c1 c2 c3 c4 minParallax minTriangulated io))"

subsection \<open>ReconstructH\<close>

text \<open>The variables of the loop over the eight hypotheses.\<close>

record best_state =
  bestGood :: int
  secondBestGood :: int
  bestSolutionIdx :: int
  bestParallax :: real
  bestP3D :: "vec3 list"
  bestTriangulated :: "bool list"

definition best_init :: best_state where
  "best_init = \<lparr> bestGood = 0, secondBestGood = 0, bestSolutionIdx = - 1, bestParallax = - 1,
                 bestP3D = [], bestTriangulated = [] \<rparr>"

text \<open>One iteration, given what \<^verbatim>\<open>CheckRT\<close> returned for hypothesis \<open>i\<close>.\<close>

definition ReconstructH_body :: "nat \<Rightarrow> CheckRT_result \<Rightarrow> best_state \<Rightarrow> best_state" where
  "ReconstructH_body i c s =
     (let nGood = res_nGood c in
      if nGood > bestGood s then
        s\<lparr>secondBestGood := bestGood s, bestGood := nGood, bestSolutionIdx := int i,
          bestParallax := res_parallax c, bestP3D := res_vP3D c, bestTriangulated := res_vbGood c\<rparr>
      else if nGood > secondBestGood s then s\<lparr>secondBestGood := nGood\<rparr>
      else s)"

fun ReconstructH_loop :: "nat \<Rightarrow> CheckRT_result list \<Rightarrow> best_state \<Rightarrow> best_state" where
  "ReconstructH_loop i [] s = s"
| "ReconstructH_loop i (c # cs) s = ReconstructH_loop (Suc i) cs (ReconstructH_body i c s)"

text \<open>
  The part of \<^verbatim>\<open>ReconstructH\<close> from \<^verbatim>\<open>int bestGood = 0;\<close> to the end. \<open>hyps\<close> are the
  eight pairs \<^verbatim>\<open>(vR[i], vt[i])\<close> and \<open>cs\<close> what \<^verbatim>\<open>CheckRT\<close> returned for them, in order.
\<close>

definition ReconstructH_select ::
  "int \<Rightarrow> (mat3 \<times> vec3) list \<Rightarrow> CheckRT_result list \<Rightarrow> real \<Rightarrow> int \<Rightarrow> reconstruct_io
     \<Rightarrow> bool \<times> reconstruct_io" where
  "ReconstructH_select N hyps cs minParallax minTriangulated io =
     (let s = ReconstructH_loop 0 cs best_init in
      if real_of_int (secondBestGood s) < 0.75 * real_of_int (bestGood s)
         \<and> bestParallax s \<ge> minParallax
         \<and> bestGood s > minTriangulated
         \<and> real_of_int (bestGood s) > 0.9 * real_of_int N
      then (True, io\<lparr>io_R21 := Some (fst (hyps ! nat (bestSolutionIdx s))),
                      io_t21 := Some (snd (hyps ! nat (bestSolutionIdx s))),
                      io_vP3D := bestP3D s, io_vbTriangulated := bestTriangulated s\<rparr>)
      else (False, io))"

text \<open>Sequencing of calls that may stop with an error.\<close>

fun collect :: "(error + 'a) list \<Rightarrow> error + 'a list" where
  "collect [] = Inr []"
| "collect (Inl e # rs) = Inl e"
| "collect (Inr x # rs) = (case collect rs of Inl e \<Rightarrow> Inl e | Inr xs \<Rightarrow> Inr (x # xs))"

text \<open>
  The whole function. The SVD of \<open>A = K\<^sup>-\<^sup>1 H21 K\<close> and the eight motion hypotheses that
  the method of Faugeras derives from it are supplied by the caller as \<open>Faugeras\<close>, which
  gives the singular values \<open>(d1, d2, d3)\<close> and the list of the pairs \<^verbatim>\<open>(vR[i], vt[i])\<close>.
  The singular values are finite \<^verbatim>\<open>float\<close> values; their quotients are \<^verbatim>\<open>float\<close>
  divisions, compared with the \<^verbatim>\<open>double\<close> 1.00001.
\<close>

definition ReconstructH ::
  "(mat3 \<Rightarrow> mat3 \<Rightarrow> vec3 \<Rightarrow> keypoint \<Rightarrow> keypoint \<Rightarrow> vec3 option)
     \<Rightarrow> (mat3 \<Rightarrow> mat3 \<Rightarrow> vec3 \<times> (mat3 \<times> vec3) list)
     \<Rightarrow> Initializer \<Rightarrow> bool list \<Rightarrow> mat3 \<Rightarrow> mat3 \<Rightarrow> reconstruct_io \<Rightarrow> real \<Rightarrow> int
     \<Rightarrow> error + bool \<times> reconstruct_io" where
  "ReconstructH Triangulate Faugeras this vbMatchesInliers H21 K io minParallax minTriangulated =
     (let N = count_inliers vbMatchesInliers;
          ((d1, d2, d3), hyps) = Faugeras H21 K
      in
      if flt (fdiv (Fin d1) (Fin d2)) (Fin double_1_00001)
         \<or> flt (fdiv (Fin d2) (Fin d3)) (Fin double_1_00001) then Inr (False, io)
      else
        case collect (map (\<lambda>(R, t). CheckRT Triangulate R t (mvKeys1 this) (mvKeys2 this)
                                       (mvMatches12 this) vbMatchesInliers K [] (4.0 * mSigma2 this))
                          hyps) of
          Inl e \<Rightarrow> Inl e
        | Inr cs \<Rightarrow> Inr (ReconstructH_select N hyps cs minParallax minTriangulated io))"

section \<open>Initializer: choice of the reconstruction\<close>

text \<open>\<^verbatim>\<open>float RH = SH/(SH+SF);\<close> for the finite \<^verbatim>\<open>float\<close> scores \<open>SH\<close> and \<open>SF\<close>.\<close>

definition RH_of :: "real \<Rightarrow> real \<Rightarrow> fval" where
  "RH_of SH SF = fdiv (Fin SH) (fadd (Fin SH) (Fin SF))"

text \<open>
  The end of \<^verbatim>\<open>Initialize\<close>, after the two RANSAC threads have been joined. The threads
  leave the scores \<open>SH\<close> and \<open>SF\<close>, the models \<open>H\<close> and \<open>F\<close> and their inlier flags;
  \<^verbatim>\<open>Initialize\<close> returns what the reconstruction it calls returns. In \<^verbatim>\<open>RH>0.40\<close> the
  \<^verbatim>\<open>float\<close> \<^verbatim>\<open>RH\<close> is widened and compared with the \<^verbatim>\<open>double\<close> 0.40.
\<close>

definition Initialize ::
  "(mat3 \<Rightarrow> mat3 \<Rightarrow> vec3 \<Rightarrow> keypoint \<Rightarrow> keypoint \<Rightarrow> vec3 option)
     \<Rightarrow> (mat3 \<Rightarrow> mat3 \<Rightarrow> vec3 \<times> (mat3 \<times> vec3) list) \<Rightarrow> (mat3 \<Rightarrow> mat3 \<times> mat3 \<times> vec3)
     \<Rightarrow> Initializer \<Rightarrow> bool list \<Rightarrow> real \<Rightarrow> mat3 \<Rightarrow> bool list \<Rightarrow> real \<Rightarrow> mat3 \<Rightarrow> reconstruct_io
     \<Rightarrow> error + bool \<times> reconstruct_io" where
  "Initialize Triangulate Faugeras DecomposeE this vbMatchesInliersH SH H vbMatchesInliersF SF F io =
     (let RH = RH_of SH SF in
      if fgt RH (Fin double_0_40)
      then ReconstructH Triangulate Faugeras this vbMatchesInliersH H (mK this) io 1.0 50
      else ReconstructF Triangulate DecomposeE this vbMatchesInliersF F (mK this) io 1.0 50)"

section \<open>Initializer: triangulation of the line matches\<close>

definition SkewSymmetricMatrix :: "vec3 \<Rightarrow> mat3" where
  "SkewSymmetricMatrix v = (case v of (v0, v1, v2) \<Rightarrow>
     ((0, - v2, v1), (v2, 0, - v0), (- v1, v0, 0)))"

definition dot2 :: "real \<times> real \<Rightarrow> real \<times> real \<Rightarrow> real" where
  "dot2 a b = fst a * fst b + snd a * snd b"

definition norm2 :: "real \<times> real \<Rightarrow> real" where
  "norm2 a = sqrt (dot2 a a)"

text \<open>The three output vectors of \<^verbatim>\<open>ReconstructLine\<close>.\<close>

record line_output =
  vLineS3D :: "vec3 list"
  vLineE3D :: "vec3 list"
  vbLineTriangulated :: "bool list"

text \<open>
  The first part of an iteration, for a match whose line indices are in range: the test of
  the match against the epipolar geometry, the triangulation of the two end points and
  the parallax test. It gives the end points that the second part stores, or \<open>None\<close>
  where the source goes on to the next match. Matrix inversion (\<open>invert\<close>) and the
  SVD-based \<^verbatim>\<open>LineTriangulate\<close> come from the caller; the latter gives \<open>None\<close> where
  the source finds a coordinate that is not finite. The drawing on a copy of
  \<^verbatim>\<open>cubemapMatch_rgb\<close> changes no output and is left out.
\<close>

definition ReconstructLine_endpoints ::
  "(mat3 \<Rightarrow> mat3) \<Rightarrow> (mat3 \<Rightarrow> mat3 \<Rightarrow> vec3 \<Rightarrow> keyline \<Rightarrow> keyline \<Rightarrow> vec3 \<Rightarrow> vec3 \<Rightarrow> (vec3 \<times> vec3) option)
     \<Rightarrow> Initializer \<Rightarrow> mat3 \<Rightarrow> mat3 \<Rightarrow> vec3 \<Rightarrow> match \<Rightarrow> (vec3 \<times> vec3) option" where
  "ReconstructLine_endpoints invert LineTriangulate this K R21 t21 m =
     (let kl1 = mvKeyLines1 this ! fst m;
          kl2 = mvKeyLines2 this ! snd m;
          klf1 = mvKeyLineFunctions1 this ! fst m;
          klf2 = mvKeyLineFunctions2 this ! snd m;
          lineVector2 = (- fst (snd klf2), fst klf2);
          ray1Start = (startPointX kl1, startPointY kl1, 1);
          ray1End = (endPointX kl1, endPointY kl1, 1);
          t21x = SkewSymmetricMatrix t21;
          F21 = mat_mul (mat_mul (mat_mul (invert (transpose3 K)) t21x) R21) (invert K);
          Th1 = mat_vec F21 ray1Start;
          Th1' = (- fst (snd Th1), fst Th1);
          Result1 = dot2 lineVector2 Th1' / (norm2 lineVector2 * norm2 Th1');
          Th2 = mat_vec F21 ray1End;
          Th2' = (- fst (snd Th2), fst Th2);
          Result2 = dot2 lineVector2 Th2' / (norm2 lineVector2 * norm2 Th2')
      in
      if \<bar>Result1\<bar> > 0.98 \<or> \<bar>Result2\<bar> > 0.98 then None
      else
        case LineTriangulate K R21 t21 kl1 kl2 klf1 klf2 of
          None \<Rightarrow> None
        | Some (L3dSC1, L3dEC1) \<Rightarrow>
            let O1 = (0, 0, 0);
                O2 = neg3 (mat_vec (transpose3 R21) t21);
                cosParallax1 = cos_parallax L3dSC1 O1 O2;
                cosParallax2 = cos_parallax L3dEC1 O1 O2
            in
            if cosParallax1 \<ge> 0.99998 \<or> cosParallax2 \<ge> 0.99998 then None
            else Some (L3dSC1, L3dEC1))"

text \<open>
  One iteration: the reads of the line vectors at the indices of the match, the first
  part, and the three stores at \<^verbatim>\<open>index = vLineMatches[i].first\<close>. The reprojection
  residuals that follow the first two stores go to the local vectors \<^verbatim>\<open>errorC1\<close> and
  \<^verbatim>\<open>errorC2\<close>, which nothing reads.
\<close>

definition ReconstructLine_body ::
  "(mat3 \<Rightarrow> mat3) \<Rightarrow> (mat3 \<Rightarrow> mat3 \<Rightarrow> vec3 \<Rightarrow> keyline \<Rightarrow> keyline \<Rightarrow> vec3 \<Rightarrow> vec3 \<Rightarrow> (vec3 \<times> vec3) option)
     \<Rightarrow> Initializer \<Rightarrow> mat3 \<Rightarrow> mat3 \<Rightarrow> vec3 \<Rightarrow> nat \<Rightarrow> match \<Rightarrow> line_output \<Rightarrow> error + line_output" where
  "ReconstructLine_body invert LineTriangulate this K R21 t21 i m s =
     (if length (mvKeyLines1 this) \<le> fst m \<or> length (mvKeyLines2 this) \<le> snd m
         \<or> length (mvKeyLineFunctions1 this) \<le> fst m \<or> length (mvKeyLineFunctions2 this) \<le> snd m
      then Inl OutOfRange
      else
        let index = fst m in
        case ReconstructLine_endpoints invert LineTriangulate this K R21 t21 m of
          None \<Rightarrow> Inr s
        | Some (L3dSC1, L3dEC1) \<Rightarrow>
            if length (vLineS3D s) \<le> index \<or> length (vLineE3D s) \<le> index
               \<or> length (vbLineTriangulated s) \<le> index
            then Inl OutOfRange
            else Inr (s\<lparr>vLineS3D := (vLineS3D s)[index := L3dSC1],
                       vLineE3D := (vLineE3D s)[index := L3dEC1],
                       vbLineTriangulated := (vbLineTriangulated s)[index := True]\<rparr>))"

definition ReconstructLine ::
  "(mat3 \<Rightarrow> mat3) \<Rightarrow> (mat3 \<Rightarrow> mat3 \<Rightarrow> vec3 \<Rightarrow> keyline \<Rightarrow> keyline \<Rightarrow> vec3 \<Rightarrow> vec3 \<Rightarrow> (vec3 \<times> vec3) option)
     \<Rightarrow> Initializer \<Rightarrow> match list \<Rightarrow> mat3 \<Rightarrow> mat3 \<Rightarrow> vec3 \<Rightarrow> line_output \<Rightarrow> error + line_output" where
  "ReconstructLine invert LineTriangulate this vLineMatches K R21 t21 out =
     for_each (ReconstructLine_body invert LineTriangulate this K R21 t21) 0 vLineMatches
       \<lparr> vLineS3D = resize (length (mvKeys1 this)) (0, 0, 0) (vLineS3D out),
         vLineE3D = resize (length (mvKeys1 this)) (0, 0, 0) (vLineE3D out),
         vbLineTriangulated = resize (length (mvKeys1 this)) False (vbLineTriangulated out) \<rparr>"

section \<open>Local mapper: keyframe culling\<close>

text \<open>
  Keyframes and map points are named by natural numbers (the pointers of the source). The
  vectors \<^verbatim>\<open>mvpMapPoints\<close>, \<^verbatim>\<open>mvKeysUn\<close> and \<^verbatim>\<open>mvDepth\<close> of a keyframe run in parallel
  over its features, so a keyframe holds one list of features: the map point matched to
  the feature (\<open>None\<close> for a null pointer), the octave of its keypoint and its depth.
\<close>

record feature =
  ft_mapPoint :: "nat option"
  ft_octave :: int
  ft_depth :: real

record KeyFrame =
  mnId :: nat
  kf_features :: "feature list"
  mThDepth :: real
  kf_mbBad :: bool

text \<open>
  Of a map point the culling reads \<^verbatim>\<open>isBad()\<close>, the counter \<^verbatim>\<open>Observations()\<close> and the
  map \<^verbatim>\<open>GetObservations()\<close> from keyframes to feature indices, listed in the order of
  iteration.
\<close>

record MapPoint =
  mp_isBad :: bool
  mp_Observations :: int
  mp_GetObservations :: "(nat \<times> nat) list"

record world =
  keyframes :: "nat \<Rightarrow> KeyFrame"
  mappoints :: "nat \<Rightarrow> MapPoint"

text \<open>
  Modelled from the spec: \<^verbatim>\<open>KeyFrame::SetBadFlag\<close> is not among the sources. The
  specification says of it only that the keyframe is flagged bad.
\<close>

definition SetBadFlag :: "nat \<Rightarrow> world \<Rightarrow> world" where
  "SetBadFlag pKF w = w\<lparr>keyframes := (keyframes w)(pKF := (keyframes w pKF)\<lparr>kf_mbBad := True\<rparr>)\<rparr>"

text \<open>
  The loop over the observations of a map point, with its \<^verbatim>\<open>break\<close>: \<open>nObs\<close> counts the
  keyframes other than \<open>pKF\<close> that see the point at a level of at most \<open>scaleLevel + 1\<close>.
\<close>

fun count_observers :: "world \<Rightarrow> nat \<Rightarrow> int \<Rightarrow> int \<Rightarrow> (nat \<times> nat) list \<Rightarrow> int \<Rightarrow> error + int" where
  "count_observers w pKF scaleLevel thObs [] nObs = Inr nObs"
| "count_observers w pKF scaleLevel thObs ((pKFi, idx) # rest) nObs =
     (if pKFi = pKF then count_observers w pKF scaleLevel thObs rest nObs
      else if length (kf_features (keyframes w pKFi)) \<le> idx then Inl OutOfRange
      else
        let scaleLeveli = ft_octave (kf_features (keyframes w pKFi) ! idx) in
        if scaleLeveli \<le> scaleLevel + 1 then
          (let nObs = nObs + 1 in
           if nObs \<ge> thObs then Inr nObs
           else count_observers w pKF scaleLevel thObs rest nObs)
        else count_observers w pKF scaleLevel thObs rest nObs)"

text \<open>
  One iteration of the loop over the features of \<open>pKF\<close>; the state is
  \<open>(nRedundantObservations, nMPs)\<close>.
\<close>

definition KeyFrameCulling_feature ::
  "world \<Rightarrow> bool \<Rightarrow> nat \<Rightarrow> nat \<Rightarrow> feature \<Rightarrow> int \<times> int \<Rightarrow> error + int \<times> int" where
  "KeyFrameCulling_feature w mbMono pKF i f st =
     (let thObs = 3; nRedundantObservations = fst st; nMPs = snd st in
      case ft_mapPoint f of
        None \<Rightarrow> Inr st
      | Some pMP \<Rightarrow>
          if mp_isBad (mappoints w pMP) then Inr st
          else if \<not> mbMono \<and> (ft_depth f > mThDepth (keyframes w pKF) \<or> ft_depth f < 0) then Inr st
          else
            let nMPs = nMPs + 1 in
            if mp_Observations (mappoints w pMP) > thObs then
              (let scaleLevel = ft_octave f;
                   observations = mp_GetObservations (mappoints w pMP)
               in
               case count_observers w pKF scaleLevel thObs observations 0 of
                 Inl e \<Rightarrow> Inl e
               | Inr nObs \<Rightarrow>
                   if nObs \<ge> thObs then Inr (nRedundantObservations + 1, nMPs)
                   else Inr (nRedundantObservations, nMPs))
            else Inr (nRedundantObservations, nMPs))"

text \<open>One iteration of the loop over the covisible keyframes.\<close>

definition KeyFrameCulling_body :: "bool \<Rightarrow> nat \<Rightarrow> nat \<Rightarrow> world \<Rightarrow> error + world" where
  "KeyFrameCulling_body mbMono i pKF w =
     (if mnId (keyframes w pKF) = 0 then Inr w
      else
        case for_each (KeyFrameCulling_feature w mbMono pKF) 0 (kf_features (keyframes w pKF)) (0, 0) of
          Inl e \<Rightarrow> Inl e
        | Inr (nRedundantObservations, nMPs) \<Rightarrow>
            if real_of_int nRedundantObservations > 0.9 * real_of_int nMPs
            then Inr (SetBadFlag pKF w)
            else Inr w)"

text \<open>
  \<^verbatim>\<open>KeyFrameCulling\<close>, given the covisible keyframes of the current keyframe
  (\<^verbatim>\<open>GetVectorCovisibleKeyFrames\<close>).
\<close>

definition KeyFrameCulling :: "bool \<Rightarrow> nat list \<Rightarrow> world \<Rightarrow> error + world" where
  "KeyFrameCulling mbMono vpLocalKeyFrames w =
     for_each (KeyFrameCulling_body mbMono) 0 vpLocalKeyFrames w"

section \<open>Local mapper: control state\<close>

text \<open>
  The flags set by the constructor's initialiser list and the queue of new keyframes
  (a \<^verbatim>\<open>std::list<KeyFrame*>\<close>, default-constructed empty). Keyframes are named by
  their identifiers.
\<close>

record LocalMapping =
  mbMonocular :: bool
  mbResetRequested :: bool
  mbFinishRequested :: bool
  mbFinished :: bool
  mbAbortBA :: bool
  mbStopped :: bool
  mbStopRequested :: bool
  mbNotStop :: bool
  mbAcceptKeyFrames :: bool
  mlNewKeyFrames :: "nat list"

definition LocalMapping_new :: "bool \<Rightarrow> LocalMapping" where
  "LocalMapping_new bMonocular =
     \<lparr> mbMonocular = bMonocular, mbResetRequested = False, mbFinishRequested = False,
       mbFinished = True, mbAbortBA = False, mbStopped = False, mbStopRequested = False,
       mbNotStop = False, mbAcceptKeyFrames = True, mlNewKeyFrames = [] \<rparr>"

text \<open>The first statement of \<^verbatim>\<open>Run\<close>: \<^verbatim>\<open>mbFinished = false;\<close>\<close>

definition Run_enter :: "LocalMapping \<Rightarrow> LocalMapping" where
  "Run_enter s = s\<lparr>mbFinished := False\<rparr>"

definition InsertKeyFrame :: "nat \<Rightarrow> LocalMapping \<Rightarrow> LocalMapping" where
  "InsertKeyFrame pKF s = s\<lparr>mlNewKeyFrames := mlNewKeyFrames s @ [pKF], mbAbortBA := True\<rparr>"

definition RequestStop :: "LocalMapping \<Rightarrow> LocalMapping" where
  "RequestStop s = s\<lparr>mbStopRequested := True, mbAbortBA := True\<rparr>"

text \<open>\<^verbatim>\<open>Stop\<close> returns its verdict together with the state.\<close>

definition Stop :: "LocalMapping \<Rightarrow> bool \<times> LocalMapping" where
  "Stop s = (if mbStopRequested s \<and> \<not> mbNotStop s then (True, s\<lparr>mbStopped := True\<rparr>)
             else (False, s))"

definition Release :: "LocalMapping \<Rightarrow> LocalMapping" where
  "Release s = (if mbFinished s then s
                else s\<lparr>mbStopped := False, mbStopRequested := False, mlNewKeyFrames := []\<rparr>)"

section \<open>Auxiliary notions and sample inputs\<close>

text \<open>
  Whether a hypothesis with \<open>n\<close> good points counts as similar to the best one in
  \<^verbatim>\<open>ReconstructF\<close>: one \<^verbatim>\<open>if(nGood>0.7*maxGood) nsimilar++;\<close>
\<close>

definition similar :: "int \<Rightarrow> int \<Rightarrow> int" where
  "similar maxGood n = (if real_of_int n > 0.7 * real_of_int maxGood then 1 else 0)"

text \<open>What the loop of \<^verbatim>\<open>CheckRT\<close> keeps true of its state.\<close>

definition CheckRT_inv :: "CheckRT_state \<Rightarrow> bool" where
  "CheckRT_inv s \<longleftrightarrow> 0 \<le> nGood s \<and> length (vCosParallax s) = nat (nGood s)
                      \<and> int (count_true (vbGood s)) \<le> nGood s"

text \<open>The three output vectors of \<^verbatim>\<open>ReconstructLine\<close> have \<open>n\<close> entries each.\<close>

definition line_lengths :: "nat \<Rightarrow> line_output \<Rightarrow> bool" where
  "line_lengths n s \<longleftrightarrow>
     length (vLineS3D s) = n \<and> length (vLineE3D s) = n \<and> length (vbLineTriangulated s) = n"

text \<open>
  The counts of the hypotheses of \<^verbatim>\<open>ReconstructH\<close>, read off the list \<open>cs\<close> of what
  \<^verbatim>\<open>CheckRT\<close> returned for them: the best count (0 when no hypothesis has a good point, as
  \<^verbatim>\<open>bestGood\<close> starts at 0), the second-best count (the highest count once one occurrence
  of the best is set aside, 0 at least), and the best hypothesis, the first one that
  reaches the best count.
\<close>

definition best_count :: "CheckRT_result list \<Rightarrow> int" where
  "best_count cs = Max (set (0 # map res_nGood cs))"

definition second_count :: "CheckRT_result list \<Rightarrow> int" where
  "second_count cs = Max (set_mset (mset (0 # 0 # map res_nGood cs) - {#best_count cs#}))"

definition winner :: "CheckRT_result list \<Rightarrow> nat" where
  "winner cs = length (takeWhile (\<lambda>c. res_nGood c \<noteq> best_count cs) cs)"

text \<open>What the loop of \<^verbatim>\<open>ReconstructH\<close> keeps true of its variables.\<close>

definition best_inv :: "CheckRT_result list \<Rightarrow> best_state \<Rightarrow> bool" where
  "best_inv cs s \<longleftrightarrow>
     bestGood s = best_count cs \<and> secondBestGood s = second_count cs \<and>
     (if best_count cs > 0
      then winner cs < length cs \<and> bestSolutionIdx s = int (winner cs)
           \<and> bestParallax s = res_parallax (cs ! winner cs)
           \<and> bestP3D s = res_vP3D (cs ! winner cs)
           \<and> bestTriangulated s = res_vbGood (cs ! winner cs)
      else True)"

text \<open>
  The notions of the redundancy criterion of \<^verbatim>\<open>KeyFrameCulling\<close>. A feature of keyframe
  \<open>pKF\<close> is valid when it has a map point that is not bad and, unless the mapper is
  monocular, a depth between 0 and \<^verbatim>\<open>mThDepth\<close>. An observation \<open>(k, i)\<close> of a map point is
  by another keyframe at the same or a finer scale when \<open>k\<close> is not \<open>pKF\<close> and feature \<open>i\<close>
  of \<open>k\<close> has an octave of at most \<open>scaleLevel\<close>. A valid feature is well observed when its
  map point has at least three such observations, and observed by others when its map
  point has at least three observations by keyframes other than \<open>pKF\<close>, at whatever scale.
  A keyframe is mostly well observed, or mostly observed by others, when strictly more
  than 90% of its valid features are.
\<close>

definition valid_feature :: "world \<Rightarrow> bool \<Rightarrow> nat \<Rightarrow> feature \<Rightarrow> bool" where
  "valid_feature w mbMono pKF f =
     (case ft_mapPoint f of
        None \<Rightarrow> False
      | Some pMP \<Rightarrow> \<not> mp_isBad (mappoints w pMP)
                    \<and> (mbMono \<or> (ft_depth f \<le> mThDepth (keyframes w pKF) \<and> 0 \<le> ft_depth f)))"

definition finer_observer :: "world \<Rightarrow> nat \<Rightarrow> int \<Rightarrow> nat \<times> nat \<Rightarrow> bool" where
  "finer_observer w pKF scaleLevel ob =
     (fst ob \<noteq> pKF \<and> snd ob < length (kf_features (keyframes w (fst ob)))
      \<and> ft_octave (kf_features (keyframes w (fst ob)) ! snd ob) \<le> scaleLevel)"

definition well_observed :: "world \<Rightarrow> bool \<Rightarrow> nat \<Rightarrow> feature \<Rightarrow> bool" where
  "well_observed w mbMono pKF f =
     (valid_feature w mbMono pKF f \<and>
      (case ft_mapPoint f of
         None \<Rightarrow> False
       | Some pMP \<Rightarrow> 3 \<le> length (filter (finer_observer w pKF (ft_octave f))
                                       (mp_GetObservations (mappoints w pMP)))))"

definition observed_by_others :: "world \<Rightarrow> bool \<Rightarrow> nat \<Rightarrow> feature \<Rightarrow> bool" where
  "observed_by_others w mbMono pKF f =
     (valid_feature w mbMono pKF f \<and>
      (case ft_mapPoint f of
         None \<Rightarrow> False
       | Some pMP \<Rightarrow> 3 \<le> length (filter (\<lambda>ob. fst ob \<noteq> pKF)
                                       (mp_GetObservations (mappoints w pMP)))))"

definition mostly_observed_by_others :: "world \<Rightarrow> bool \<Rightarrow> nat \<Rightarrow> bool" where
  "mostly_observed_by_others w mbMono pKF =
     (real (length (filter (observed_by_others w mbMono pKF) (kf_features (keyframes w pKF))))
        > 0.9 * real (length (filter (valid_feature w mbMono pKF) (kf_features (keyframes w pKF)))))"

definition mostly_well_observed :: "world \<Rightarrow> bool \<Rightarrow> nat \<Rightarrow> bool" where
  "mostly_well_observed w mbMono pKF =
     (real (length (filter (well_observed w mbMono pKF) (kf_features (keyframes w pKF))))
        > 0.9 * real (length (filter (valid_feature w mbMono pKF) (kf_features (keyframes w pKF)))))"

text \<open>
  What the map guarantees of the observations of its points: a map point of a feature of
  \<open>pKF\<close> has \<open>pKF\<close> among its observers, and \<^verbatim>\<open>Observations()\<close> is at least the number of
  its observers (it counts one or two per observer); every observation \<open>(k, i)\<close> names a
  feature that keyframe \<open>k\<close> has.
\<close>

definition feature_consistent :: "world \<Rightarrow> nat \<Rightarrow> feature \<Rightarrow> bool" where
  "feature_consistent w pKF f =
     (case ft_mapPoint f of
        None \<Rightarrow> True
      | Some pMP \<Rightarrow> pKF \<in> fst ` set (mp_GetObservations (mappoints w pMP))
                    \<and> int (length (mp_GetObservations (mappoints w pMP)))
                        \<le> mp_Observations (mappoints w pMP))"

definition observations_consistent :: "world \<Rightarrow> nat \<Rightarrow> bool" where
  "observations_consistent w pKF =
     (\<forall>f \<in> set (kf_features (keyframes w pKF)). feature_consistent w pKF f)"

definition observations_in_range :: "world \<Rightarrow> bool" where
  "observations_in_range w =
     (\<forall>pMP. \<forall>ob \<in> set (mp_GetObservations (mappoints w pMP)).
        snd ob < length (kf_features (keyframes w (fst ob))))"

text \<open>Two maps that differ in the bad flags of their keyframes at most.\<close>

definition same_static :: "world \<Rightarrow> world \<Rightarrow> bool" where
  "same_static w w' \<longleftrightarrow>
     mappoints w' = mappoints w \<and>
     (\<forall>k. mnId (keyframes w' k) = mnId (keyframes w k)
          \<and> kf_features (keyframes w' k) = kf_features (keyframes w k)
          \<and> mThDepth (keyframes w' k) = mThDepth (keyframes w k))"

text \<open>
  Sample data: the identity as calibration and as rotation, and a result of \<^verbatim>\<open>CheckRT\<close>
  for a frame of \<open>nkeys\<close> keypoints of which the first \<open>n\<close> were triangulated with
  enough parallax, with \<open>p\<close> degrees of parallax.
\<close>

definition I3 :: mat3 where
  "I3 = ((1, 0, 0), (0, 1, 0), (0, 0, 1))"

definition checked :: "nat \<Rightarrow> nat \<Rightarrow> real \<Rightarrow> CheckRT_result" where
  "checked nkeys n p =
     \<lparr> res_nGood = int n,
       res_vP3D = replicate n (0, 0, 4) @ replicate (nkeys - n) (0, 0, 0),
       res_vbGood = replicate n True @ replicate (nkeys - n) False,
       res_parallax = p \<rparr>"

definition io_empty :: reconstruct_io where
  "io_empty = \<lparr> io_R21 = None, io_t21 = None, io_vP3D = [], io_vbTriangulated = [] \<rparr>"

text \<open>
  A pair of frames without matches, with the identity as calibration; singular values 3,
  2 and 1 with eight copies of one motion hypothesis, and a decomposition of the essential
  matrix; and outputs \<^verbatim>\<open>R21\<close> and \<^verbatim>\<open>t21\<close> that hold a value from before the call.
\<close>

definition frame_empty :: Initializer where
  "frame_empty =
     \<lparr> mvKeys1 = [], mvKeys2 = [], mvMatches12 = [], mK = I3, mSigma2 = 1,
       mvKeyLines1 = [], mvKeyLines2 = [], mvKeyLineFunctions1 = [], mvKeyLineFunctions2 = [] \<rparr>"

definition faugeras_sample :: "mat3 \<Rightarrow> mat3 \<Rightarrow> vec3 \<times> (mat3 \<times> vec3) list" where
  "faugeras_sample H21 K = ((3, 2, 1), replicate 8 (I3, (1, 0, 0)))"

definition decompose_sample :: "mat3 \<Rightarrow> mat3 \<times> mat3 \<times> vec3" where
  "decompose_sample E21 = (I3, I3, (1, 0, 0))"

definition io_sample :: reconstruct_io where
  "io_sample = \<lparr> io_R21 = Some I3, io_t21 = Some (1, 0, 0), io_vP3D = [], io_vbTriangulated = [] \<rparr>"

text \<open>
  A sample pair of views: calibration and rotation the identity, translation
  \<open>(-3, 0, 0)\<close>, every keypoint of frame 1 at the principal point. A keypoint \<open>(u, 0)\<close> of
  frame 2 is then the image of the point \<open>(0, 0, -3/u)\<close>, which is what the triangulation
  finds. \<open>keys2_sample\<close> are the images of a point at depth 4, of one at depth 36/5 and
  of fifty at depth 9/4.
\<close>

definition triangulate_sample :: "mat3 \<Rightarrow> mat3 \<Rightarrow> vec3 \<Rightarrow> keypoint \<Rightarrow> keypoint \<Rightarrow> vec3 option" where
  "triangulate_sample K R t kp1 kp2 = Some (0, 0, - 3 / fst kp2)"

definition keys2_sample :: "keypoint list" where
  "keys2_sample = [(- 3 / 4, 0), (- 5 / 12, 0)] @ replicate 50 (- 4 / 3, 0)"

text \<open>
  A sample pair of views for the lines: \<open>nkeys\<close> point features, two lines in frame 1 and
  one in frame 2. Line 1 of frame 1 and line 0 of frame 2 are the images, for a
  translation of \<open>(-3, 0, 0)\<close>, of the segment from \<open>(3/2, 0, 3/2)\<close> to \<open>(2, 1, 1)\<close>, which
  is what the triangulation finds.
\<close>

definition line_triangulate_sample ::
  "mat3 \<Rightarrow> mat3 \<Rightarrow> vec3 \<Rightarrow> keyline \<Rightarrow> keyline \<Rightarrow> vec3 \<Rightarrow> vec3 \<Rightarrow> (vec3 \<times> vec3) option" where
  "line_triangulate_sample K R t kl1 kl2 klf1 klf2 = Some ((3 / 2, 0, 3 / 2), (2, 1, 1))"

definition lines_sample :: "nat \<Rightarrow> Initializer" where
  "lines_sample nkeys =
     \<lparr> mvKeys1 = replicate nkeys (1, 0), mvKeys2 = replicate nkeys (- 1, 0), mvMatches12 = [],
       mK = I3, mSigma2 = 1,
       mvKeyLines1 = [\<lparr> startPointX = 0, startPointY = 0, endPointX = 1, endPointY = 0 \<rparr>,
                      \<lparr> startPointX = 1, startPointY = 0, endPointX = 2, endPointY = 1 \<rparr>],
       mvKeyLines2 = [\<lparr> startPointX = - 1, startPointY = 0, endPointX = - 1, endPointY = 1 \<rparr>],
       mvKeyLineFunctions1 = [(0, 1, 0), (1 / sqrt 2, - 1 / sqrt 2, - 1 / sqrt 2)],
       mvKeyLineFunctions2 = [(1, 0, 1)] \<rparr>"

text \<open>
  Two sample maps, in which the keyframe named \<open>k\<close> has identifier \<open>k\<close>. In the first,
  keyframe 1 sees map point 0 at octave 0 and keyframes 2, 3 and 4 see it one level
  coarser. In the second, every keyframe has ten features at octave 0; map points 0 to 8
  are seen by keyframes 1 to 4, map point 9 by keyframe 1 only.
\<close>

definition world_coarser :: world where
  "world_coarser =
     \<lparr> keyframes = (\<lambda>k. \<lparr> mnId = k,
                           kf_features = [\<lparr> ft_mapPoint = Some 0,
                                            ft_octave = (if k = 1 then 0 else 1),
                                            ft_depth = - 1 \<rparr>],
                           mThDepth = 0, kf_mbBad = False \<rparr>),
       mappoints = (\<lambda>p. \<lparr> mp_isBad = False, mp_Observations = 4,
                           mp_GetObservations = [(1, 0), (2, 0), (3, 0), (4, 0)] \<rparr>) \<rparr>"

definition world_ninety :: world where
  "world_ninety =
     \<lparr> keyframes = (\<lambda>k. \<lparr> mnId = k,
                           kf_features = map (\<lambda>p. \<lparr> ft_mapPoint = Some p, ft_octave = 0,
                                                    ft_depth = - 1 \<rparr>) [0..<10],
                           mThDepth = 0, kf_mbBad = False \<rparr>),
       mappoints = (\<lambda>p. if p < 9
                         then \<lparr> mp_isBad = False, mp_Observations = 4,
                                mp_GetObservations = [(1, p), (2, p), (3, p), (4, p)] \<rparr>
                         else \<lparr> mp_isBad = False, mp_Observations = 1,
                                mp_GetObservations = [(1, 9)] \<rparr>) \<rparr>"

text \<open>
  A third map: keyframe 1 sees map point 0 at octave 1 and keyframes 2, 3 and 4 see it
  one level finer.
\<close>

definition world_finer :: world where
  "world_finer =
     \<lparr> keyframes = (\<lambda>k. \<lparr> mnId = k,
                           kf_features = [\<lparr> ft_mapPoint = Some 0,
                                            ft_octave = (if k = 1 then 1 else 0),
                                            ft_depth = - 1 \<rparr>],
                           mThDepth = 0, kf_mbBad = False \<rparr>),
       mappoints = (\<lambda>p. \<lparr> mp_isBad = False, mp_Observations = 4,
                           mp_GetObservations = [(1, 0), (2, 0), (3, 0), (4, 0)] \<rparr>) \<rparr>"

section \<open>Theorems\<close>

subsection \<open>Floating-point rounding\<close>

lemma round_even_int: "round_even (real_of_int m) = m"
  by (simp add: round_even_def)

lemma fexpo_eq:
  assumes "x \<noteq> 0" and "2 powr real_of_int e \<le> \<bar>x\<bar>" and "\<bar>x\<bar> < 2 powr real_of_int (e + 1)"
      and "emin \<le> e"
  shows "fexpo emin x = e"
proof -
  have "\<lfloor>log 2 \<bar>x\<bar>\<rfloor> = e"
    using assms(1-3) by (subst floor_log_eq_powr_iff) simp_all
  with assms show ?thesis by (simp add: fexpo_def)
qed

text \<open>Rounding a number whose binade \<open>e\<close> is known.\<close>

lemma fround_eval:
  assumes "x \<noteq> 0" and "2 powr real_of_int e \<le> \<bar>x\<bar>" and "\<bar>x\<bar> < 2 powr real_of_int (e + 1)"
      and "emin \<le> e" and "2 powr real_of_int (e - int p + 1) = q"
  shows "fround p emin x = real_of_int (round_even (x / q)) * q"
  unfolding fround_def fexpo_eq [OF assms(1-4)] Let_def assms(5) ..

lemma fround_zero: "fround p emin 0 = 0"
  by (simp add: fround_def round_even_def)

text \<open>
  A number with at most \<open>p\<close> significant bits above the bit of weight \<open>2\<^sup>-\<^sup>k\<close> is a value of
  the format and rounds to itself.
\<close>

lemma fround_exact:
  fixes x :: real and k p :: nat
  assumes Z: "x * 2 ^ k \<in> \<int>" and B: "\<bar>x\<bar> * 2 ^ k < 2 ^ p" and E: "int k \<le> int p - 1 - emin"
  shows "fround p emin x = x"
proof (cases "x = 0")
  case True
  then show ?thesis by (simp add: fround_zero)
next
  case False
  define e where "e = fexpo emin x"
  have "\<bar>x\<bar> < 2 ^ p / 2 ^ k" using B by (simp add: field_simps)
  also have "\<dots> = 2 powr (real p - real k)"
    by (simp add: powr_diff powr_realpow)
  finally have "log 2 \<bar>x\<bar> < real p - real k"
    using False by (simp add: log_less_iff)
  then have "\<lfloor>log 2 \<bar>x\<bar>\<rfloor> < int p - int k"
    by (simp add: floor_less_iff)
  with E have le: "e \<le> int p - 1 - int k"
    using False by (simp add: e_def fexpo_def)
  define n where "n = nat (int p - 1 - int k - e)"
  have n: "int n = int p - 1 - int k - e" using le by (simp add: n_def)
  have q: "2 powr real_of_int (e - int p + 1) = 1 / (2 ^ k * 2 ^ n :: real)"
  proof -
    have "e - int p + 1 = - int (k + n)" using n by simp
    then have "2 powr real_of_int (e - int p + 1) = 2 powr (- real (k + n))"
      by (simp only: of_int_minus of_int_of_nat_eq)
    also have "\<dots> = 1 / 2 powr real (k + n)"
      by (rule powr_minus_divide)
    also have "\<dots> = 1 / 2 ^ (k + n)"
      by (simp only: powr_realpow [of 2, simplified])
    finally show ?thesis by (simp add: power_add)
  qed
  from Z obtain z :: int where z: "x * 2 ^ k = real_of_int z" by (auto elim: Ints_cases)
  have "x / (1 / (2 ^ k * 2 ^ n)) = real_of_int (z * 2 ^ n)"
    using z by (simp add: field_simps)
  then have r: "round_even (x / (1 / (2 ^ k * 2 ^ n))) = z * 2 ^ n"
    by (simp only: round_even_int)
  have "fround p emin x = real_of_int (z * 2 ^ n) * (1 / (2 ^ k * 2 ^ n))"
    unfolding fround_def Let_def e_def [symmetric] q r ..
  also have "\<dots> = x" using z [symmetric] by (simp add: field_simps)
  finally show ?thesis .
qed

lemma fmax_float: "fmax 24 127 = 340282346638528859811704183484516925440"
  by (simp add: fmax_def powr_minus_divide)

lemma fmax_double_lower: "9007199254740992 \<le> fmax 53 1023"
proof -
  have "(1::real) \<le> 2 - 2 powr (1 - real 53)"
    by (simp add: powr_minus_divide)
  moreover have "(2::real) ^ 53 \<le> 2 powr real_of_int 1023"
    by (simp add: powr_realpow [symmetric])
  ultimately have "1 * (2::real) ^ 53 \<le> (2 - 2 powr (1 - real 53)) * 2 powr real_of_int 1023"
    by (intro mult_mono) simp_all
  then show ?thesis by (simp add: fmax_def)
qed

lemma to_float_exact:
  fixes x :: real and k :: nat
  assumes "x * 2 ^ k \<in> \<int>" and "\<bar>x\<bar> * 2 ^ k < 16777216" and "k \<le> 149"
  shows "to_float x = Fin x"
proof -
  have r: "fround 24 (- 126) x = x"
    using assms by (intro fround_exact [where k = k]) simp_all
  have "\<bar>x\<bar> \<le> \<bar>x\<bar> * 2 ^ k" by (simp add: mult_le_cancel_left1)
  with assms(2) have "\<bar>x\<bar> < 16777216" by linarith
  then have "\<bar>x\<bar> \<le> fmax 24 127" unfolding fmax_float by simp
  then show ?thesis
    unfolding to_float_def to_fval_def Let_def r by auto
qed

lemma to_double_exact:
  fixes x :: real and k :: nat
  assumes "x * 2 ^ k \<in> \<int>" and "\<bar>x\<bar> * 2 ^ k < 9007199254740992" and "k \<le> 1074"
  shows "to_double x = Fin x"
proof -
  have r: "fround 53 (- 1022) x = x"
    using assms by (intro fround_exact [where k = k]) simp_all
  have "\<bar>x\<bar> \<le> \<bar>x\<bar> * 2 ^ k" by (simp add: mult_le_cancel_left1)
  with assms(2) have "\<bar>x\<bar> < 9007199254740992" by linarith
  with fmax_double_lower have "\<bar>x\<bar> \<le> fmax 53 1023" by linarith
  then show ?thesis
    unfolding to_double_def to_fval_def Let_def r by auto
qed

lemmas exact_simps = to_float_exact [where k = 0] to_float_exact [where k = 2]
  to_float_exact [where k = 20] to_double_exact [where k = 0]

lemma to_float_eval:
  assumes "x \<noteq> 0" and "2 powr real_of_int e \<le> \<bar>x\<bar>" and "\<bar>x\<bar> < 2 powr real_of_int (e + 1)"
      and "- 126 \<le> e" and "2 powr real_of_int (e - int 24 + 1) = q"
      and "real_of_int (round_even (x / q)) * q = r" and "\<bar>r\<bar> \<le> 16777216"
  shows "to_float x = Fin r"
proof -
  have "fround 24 (- 126) x = r"
    using fround_eval [OF assms(1-5)] assms(6) by simp
  moreover have "\<bar>r\<bar> \<le> fmax 24 127" using assms(7) unfolding fmax_float by simp
  ultimately show ?thesis
    unfolding to_float_def to_fval_def Let_def by auto
qed

lemma to_double_eval:
  assumes "x \<noteq> 0" and "2 powr real_of_int e \<le> \<bar>x\<bar>" and "\<bar>x\<bar> < 2 powr real_of_int (e + 1)"
      and "- 1022 \<le> e" and "2 powr real_of_int (e - int 53 + 1) = q"
      and "real_of_int (round_even (x / q)) * q = r" and "\<bar>r\<bar> \<le> 16777216"
  shows "to_double x = Fin r"
proof -
  have "fround 53 (- 1022) x = r"
    using fround_eval [OF assms(1-5)] assms(6) by simp
  moreover have "\<bar>r\<bar> \<le> fmax 53 1023" using assms(7) fmax_double_lower by linarith
  ultimately show ?thesis
    unfolding to_double_def to_fval_def Let_def by auto
qed

text \<open>The constants are what their literals round to.\<close>

lemma float_3_841_nearest: "to_float 3.841 = Fin float_3_841"
  unfolding float_3_841_def
  by (rule to_float_eval [where e = 1 and q = "1 / 4194304"])
     (simp_all add: powr_minus_divide round_even_def Let_def)

lemma float_5_991_nearest: "to_float 5.991 = Fin float_5_991"
  unfolding float_5_991_def
  by (rule to_float_eval [where e = 2 and q = "1 / 2097152"])
     (simp_all add: powr_minus_divide round_even_def Let_def)

lemma double_0_40_nearest: "to_double 0.40 = Fin double_0_40"
  unfolding double_0_40_def
  by (rule to_double_eval [where e = "- 2" and q = "1 / 18014398509481984"])
     (simp_all add: powr_minus_divide round_even_def Let_def)

lemma double_1_00001_nearest: "to_double 1.00001 = Fin double_1_00001"
  unfolding double_1_00001_def
  by (rule to_double_eval [where e = 0 and q = "1 / 4503599627370496"])
     (simp_all add: powr_minus_divide round_even_def Let_def)

text \<open>The \<^verbatim>\<open>float\<close> nearest to 2/5 lies above the \<^verbatim>\<open>double\<close> nearest to 0.40.\<close>

lemma to_float_two_fifths: "to_float (2 / 5) = Fin (13421773 / 33554432)"
  by (rule to_float_eval [where e = "- 2" and q = "1 / 33554432"])
     (simp_all add: powr_minus_divide round_even_def Let_def)


subsection \<open>Choice of the reconstruction\<close>

lemma ReconstructH_frame_empty:
  "ReconstructH (\<lambda>K R t kp1 kp2. None) faugeras_sample frame_empty [] H I3 io minParallax 50
     = Inr (False, io)"
  by (simp add: ReconstructH_def faugeras_sample_def frame_empty_def flt_def fdiv_def
        double_1_00001_def exact_simps ReconstructH_select_def ReconstructH_body_def
        best_init_def CheckRT_def CheckRT_loop_def CheckRT_parallax_def count_inliers_def
        count_true_def resize_def numeral_eq_Suc Let_def)

lemma ReconstructF_frame_empty:
  "ReconstructF (\<lambda>K R t kp1 kp2. None) decompose_sample frame_empty [] F I3 io minParallax 50
     = Inr (False, io\<lparr>io_R21 := None, io_t21 := None\<rparr>)"
  by (simp add: ReconstructF_def ReconstructF_select_def decompose_sample_def frame_empty_def
        CheckRT_def CheckRT_loop_def CheckRT_parallax_def count_inliers_def count_true_def
        static_cast_int_def resize_def Let_def)

text \<open>
  Claim C1, as the code has it. \<^verbatim>\<open>Initialize\<close> computes \<^verbatim>\<open>RH\<close> as the \<^verbatim>\<open>float\<close> quotient
  of \<open>SH\<close> by the \<^verbatim>\<open>float\<close> sum of \<open>SH\<close> and \<open>SF\<close> and, for every pair of scores, returns what
  \<^verbatim>\<open>ReconstructH\<close> returns exactly when \<^verbatim>\<open>RH\<close> is greater than the \<^verbatim>\<open>double\<close> 0.40, and
  what \<^verbatim>\<open>ReconstructF\<close> returns otherwise. When the sum of the scores is a \<^verbatim>\<open>float\<close> and
  their ratio is exactly 0.40, \<^verbatim>\<open>RH\<close> is the \<^verbatim>\<open>float\<close> nearest to 0.40, which is
  13421773/33554432 and lies above the \<^verbatim>\<open>double\<close> 0.40, and the homography path is taken.
\<close>

theorem Initialize_selects_by_ratio:
  "Initialize Triangulate Faugeras DecomposeE this vbH SH H vbF SF F io =
     (if fgt (fdiv (Fin SH) (fadd (Fin SH) (Fin SF))) (Fin double_0_40)
      then ReconstructH Triangulate Faugeras this vbH H (mK this) io 1.0 50
      else ReconstructF Triangulate DecomposeE this vbF F (mK this) io 1.0 50) \<and>
   (to_float (SH + SF) = Fin (SH + SF) \<and> SH / (SH + SF) = 0.40 \<longrightarrow>
      RH_of SH SF = Fin (13421773 / 33554432) \<and>
      Initialize Triangulate Faugeras DecomposeE this vbH SH H vbF SF F io =
        ReconstructH Triangulate Faugeras this vbH H (mK this) io 1.0 50)"
proof (intro conjI impI)
  show "Initialize Triangulate Faugeras DecomposeE this vbH SH H vbF SF F io =
     (if fgt (fdiv (Fin SH) (fadd (Fin SH) (Fin SF))) (Fin double_0_40)
      then ReconstructH Triangulate Faugeras this vbH H (mK this) io 1.0 50
      else ReconstructF Triangulate DecomposeE this vbF F (mK this) io 1.0 50)"
    by (simp add: Initialize_def RH_of_def Let_def)
next
  assume a: "to_float (SH + SF) = Fin (SH + SF) \<and> SH / (SH + SF) = 0.40"
  then have q: "SH / (SH + SF) = 2 / 5" by simp
  then have s: "SH + SF \<noteq> 0" by auto
  have "RH_of SH SF = gdiv to_float (Fin SH) (Fin (SH + SF))"
    using a by (simp add: RH_of_def fdiv_def fadd_def)
  also have "\<dots> = to_float (SH / (SH + SF))" using s by simp
  also have "\<dots> = Fin (13421773 / 33554432)" unfolding q by (rule to_float_two_fifths)
  finally show r: "RH_of SH SF = Fin (13421773 / 33554432)" .
  show "Initialize Triangulate Faugeras DecomposeE this vbH SH H vbF SF F io =
        ReconstructH Triangulate Faugeras this vbH H (mK this) io 1.0 50"
    unfolding Initialize_def Let_def r by (simp add: double_0_40_def)
qed

text \<open>
  On a pair of frames without matches \<^verbatim>\<open>ReconstructH\<close> returns false and leaves
  \<^verbatim>\<open>R21\<close> and \<^verbatim>\<open>t21\<close> as they were, and \<^verbatim>\<open>ReconstructF\<close> returns false and empties them,
  so what \<^verbatim>\<open>Initialize\<close> returns tells which of the two ran. With scores 4 and 6, in the
  ratio 0.40 and of sum 10, \<^verbatim>\<open>ReconstructH\<close> runs; so it does with scores 1 and 1, of ratio
  0.5; with scores 1 and 3, of ratio 0.25, \<^verbatim>\<open>ReconstructF\<close> runs.
\<close>

theorem Initialize_selects_by_ratio_witness:
  "to_float (4 + 6) = Fin (4 + 6) \<and> (4::real) / (4 + 6) = 0.40 \<and>
   RH_of 4 6 = Fin (13421773 / 33554432) \<and>
   Initialize (\<lambda>K R t kp1 kp2. None) faugeras_sample decompose_sample frame_empty
       [] 4 I3 [] 6 I3 io_sample = Inr (False, io_sample) \<and>
   Initialize (\<lambda>K R t kp1 kp2. None) faugeras_sample decompose_sample frame_empty
       [] 1 I3 [] 1 I3 io_sample = Inr (False, io_sample) \<and>
   Initialize (\<lambda>K R t kp1 kp2. None) faugeras_sample decompose_sample frame_empty
       [] 1 I3 [] 3 I3 io_sample = Inr (False, io_empty) \<and>
   io_sample \<noteq> io_empty"
proof -
  have s: "to_float (4 + 6) = Fin (4 + 6)" "(4::real) / (4 + 6) = 0.40"
    by (simp_all add: exact_simps)
  have h: "fgt (fdiv (Fin 1) (fadd (Fin 1) (Fin 1))) (Fin double_0_40)"
    by (simp add: fdiv_def fadd_def exact_simps double_0_40_def)
  have f: "\<not> fgt (fdiv (Fin 1) (fadd (Fin 1) (Fin 3))) (Fin double_0_40)"
    by (simp add: fdiv_def fadd_def exact_simps double_0_40_def)
  have k: "mK frame_empty = I3" by (simp add: frame_empty_def)
  have e: "io_sample\<lparr>io_R21 := None, io_t21 := None\<rparr> = io_empty" "io_sample \<noteq> io_empty"
    by (simp_all add: io_sample_def io_empty_def)
  show ?thesis
    using Initialize_selects_by_ratio [of "\<lambda>K R t kp1 kp2. None" faugeras_sample decompose_sample
            frame_empty "[]" 4 I3 "[]" 6 I3 io_sample]
          Initialize_selects_by_ratio [of "\<lambda>K R t kp1 kp2. None" faugeras_sample decompose_sample
            frame_empty "[]" 1 I3 "[]" 1 I3 io_sample]
          Initialize_selects_by_ratio [of "\<lambda>K R t kp1 kp2. None" faugeras_sample decompose_sample
            frame_empty "[]" 1 I3 "[]" 3 I3 io_sample]
          s h f
    by (simp add: k e ReconstructH_frame_empty ReconstructF_frame_empty RH_of_def
          double_0_40_def)
qed

text \<open>
  The claim as the specification words it fails for scores in the ratio 0.40. With the
  scores 2 and 3 the sum 5 is exact, the quotient is rounded to 13421773/33554432, which
  is greater than the \<^verbatim>\<open>double\<close> 0.40, and \<^verbatim>\<open>Initialize\<close> returns what \<^verbatim>\<open>ReconstructH\<close>
  returns, not what \<^verbatim>\<open>ReconstructF\<close> returns.
\<close>

theorem Initialize_ratio_two_fifths:
  "(2::real) / (2 + 3) = 0.40 \<and>
   fadd (Fin 2) (Fin 3) = Fin 5 \<and>
   RH_of 2 3 = Fin (13421773 / 33554432) \<and>
   fgt (RH_of 2 3) (Fin double_0_40) \<and>
   Initialize (\<lambda>K R t kp1 kp2. None) faugeras_sample decompose_sample frame_empty
       [] 2 I3 [] 3 I3 io_sample = Inr (False, io_sample) \<and>
   ReconstructH (\<lambda>K R t kp1 kp2. None) faugeras_sample frame_empty [] I3 (mK frame_empty)
       io_sample 1.0 50 = Inr (False, io_sample) \<and>
   ReconstructF (\<lambda>K R t kp1 kp2. None) decompose_sample frame_empty [] I3 (mK frame_empty)
       io_sample 1.0 50 = Inr (False, io_empty) \<and>
   io_sample \<noteq> io_empty"
proof -
  have a: "fadd (Fin 2) (Fin 3) = Fin 5"
    by (simp add: fadd_def exact_simps)
  have r: "RH_of 2 3 = Fin (13421773 / 33554432)"
    unfolding RH_of_def a by (simp add: fdiv_def to_float_two_fifths)
  have g: "fgt (RH_of 2 3) (Fin double_0_40)"
    unfolding r by (simp add: double_0_40_def)
  have k: "mK frame_empty = I3" by (simp add: frame_empty_def)
  have e: "io_sample\<lparr>io_R21 := None, io_t21 := None\<rparr> = io_empty" "io_sample \<noteq> io_empty"
    by (simp_all add: io_sample_def io_empty_def)
  have i: "Initialize (\<lambda>K R t kp1 kp2. None) faugeras_sample decompose_sample frame_empty
       [] 2 I3 [] 3 I3 io_sample = Inr (False, io_sample)"
    unfolding Initialize_def Let_def using g by (simp add: k ReconstructH_frame_empty)
  from a r g i e show ?thesis
    by (simp add: k ReconstructH_frame_empty ReconstructF_frame_empty)
qed

subsection \<open>Rejection by ReconstructF\<close>

lemma res_nGood_checked: "res_nGood (checked nkeys n p) = int n"
  by (simp add: checked_def)

lemma ReconstructF_select_reject:
  assumes M: "M = max (res_nGood c1) (max (res_nGood c2) (max (res_nGood c3) (res_nGood c4)))"
      and rej: "M < max (static_cast_int (0.9 * real_of_int N)) minTriangulated
                \<or> 1 < similar M (res_nGood c1) + similar M (res_nGood c2)
                      + similar M (res_nGood c3) + similar M (res_nGood c4)"
  shows "ReconstructF_select N R1 R2 t1 t2 c1 c2 c3 c4 minParallax minTriangulated io =
           (False, io\<lparr>io_R21 := None, io_t21 := None\<rparr>)"
proof -
  let ?g1 = "real_of_int (res_nGood c1) > 0.7 * real_of_int M"
  let ?g2 = "real_of_int (res_nGood c2) > 0.7 * real_of_int M"
  let ?g3 = "real_of_int (res_nGood c3) > 0.7 * real_of_int M"
  let ?g4 = "real_of_int (res_nGood c4) > 0.7 * real_of_int M"
  let ?n1 = "if ?g1 then 0 + 1 else (0::int)"
  let ?n2 = "if ?g2 then ?n1 + 1 else ?n1"
  let ?n3 = "if ?g3 then ?n2 + 1 else ?n2"
  let ?n4 = "if ?g4 then ?n3 + 1 else ?n3"
  have "M < max (static_cast_int (0.9 * real_of_int N)) minTriangulated \<or> 1 < ?n4"
    using rej unfolding similar_def by (auto split: if_splits)
  then show ?thesis
    unfolding ReconstructF_select_def Let_def M[symmetric]
    by (simp only: if_True)
qed

lemma similar_count:
  "int (length (filter (\<lambda>n. real_of_int n > 0.7 * real_of_int M) [a, b, c, d]))
     = similar M a + similar M b + similar M c + similar M d"
  by (simp add: similar_def)

text \<open>
  Claim C2, as the code has it. With \<open>maxGood\<close> the highest of the four counts,
  \<^verbatim>\<open>ReconstructF\<close> returns false, with \<^verbatim>\<open>R21\<close> and \<^verbatim>\<open>t21\<close> empty and \<^verbatim>\<open>vP3D\<close> and
  \<^verbatim>\<open>vbTriangulated\<close> as the caller passed them, whenever \<open>maxGood\<close> is less than the maximum
  of \<open>0.9 N\<close> rounded down and \<^verbatim>\<open>minTriangulated\<close> (50 in the call by \<^verbatim>\<open>Initialize\<close>), or
  more than one of the four counts is strictly greater than \<open>0.7 maxGood\<close>.
\<close>

theorem ReconstructF_rejects:
  assumes "0 \<le> N"
      and "maxGood = max (res_nGood c1) (max (res_nGood c2) (max (res_nGood c3) (res_nGood c4)))"
      and "maxGood < max \<lfloor>0.9 * real_of_int N\<rfloor> minTriangulated
           \<or> 1 < length (filter (\<lambda>n. real_of_int n > 0.7 * real_of_int maxGood)
                           [res_nGood c1, res_nGood c2, res_nGood c3, res_nGood c4])"
  shows "ReconstructF_select N R1 R2 t1 t2 c1 c2 c3 c4 minParallax minTriangulated io =
           (False, io\<lparr>io_R21 := None, io_t21 := None\<rparr>)"
proof -
  have cast: "static_cast_int (0.9 * real_of_int N) = \<lfloor>0.9 * real_of_int N\<rfloor>"
    using assms(1) by (simp add: static_cast_int_def)
  have "1 < length (filter (\<lambda>n. real_of_int n > 0.7 * real_of_int maxGood)
                           [res_nGood c1, res_nGood c2, res_nGood c3, res_nGood c4])
        \<Longrightarrow> 1 < similar maxGood (res_nGood c1) + similar maxGood (res_nGood c2)
                      + similar maxGood (res_nGood c3) + similar maxGood (res_nGood c4)"
    using similar_count [of maxGood "res_nGood c1" "res_nGood c2" "res_nGood c3" "res_nGood c4"]
    by linarith
  with assms(3) cast
  have "maxGood < max (static_cast_int (0.9 * real_of_int N)) minTriangulated
                \<or> 1 < similar maxGood (res_nGood c1) + similar maxGood (res_nGood c2)
                      + similar maxGood (res_nGood c3) + similar maxGood (res_nGood c4)"
    by auto
  with assms(2) show ?thesis by (rule ReconstructF_select_reject)
qed

text \<open>
  Two rejections with 100 inliers: 40 good points at best are fewer than 90, and counts
  of 100 and 80 are both above 70.
\<close>

theorem ReconstructF_rejects_witness:
  "(40::int) < max \<lfloor>0.9 * real_of_int 100\<rfloor> 50 \<and>
   ReconstructF_select 100 I3 I3 (1, 0, 0) (- 1, 0, 0)
       (checked 100 40 2) (checked 100 0 0) (checked 100 0 0) (checked 100 0 0) 1 50
       \<lparr> io_R21 = Some I3, io_t21 = Some (0, 1, 0), io_vP3D = [(1, 1, 1)], io_vbTriangulated = [True] \<rparr>
     = (False, \<lparr> io_R21 = None, io_t21 = None, io_vP3D = [(1, 1, 1)], io_vbTriangulated = [True] \<rparr>) \<and>
   length (filter (\<lambda>n. real_of_int n > 0.7 * real_of_int 100) [100, 80, 0, 0]) = 2 \<and>
   ReconstructF_select 100 I3 I3 (1, 0, 0) (- 1, 0, 0)
       (checked 100 100 2) (checked 100 80 2) (checked 100 0 0) (checked 100 0 0) 1 50 io_empty
     = (False, io_empty)"
proof -
  have n: "(0::int) \<le> 100" by simp
  have f: "\<lfloor>0.9 * real_of_int 100\<rfloor> = 90" by simp
  have a: "(40::int) < max \<lfloor>0.9 * real_of_int 100\<rfloor> 50" unfolding f by simp
  have m1: "(40::int) = max (res_nGood (checked 100 40 2)) (max (res_nGood (checked 100 0 0))
              (max (res_nGood (checked 100 0 0)) (res_nGood (checked 100 0 0))))"
    by (simp add: res_nGood_checked)
  have m2: "(100::int) = max (res_nGood (checked 100 100 2)) (max (res_nGood (checked 100 80 2))
              (max (res_nGood (checked 100 0 0)) (res_nGood (checked 100 0 0))))"
    by (simp add: res_nGood_checked)
  have b: "length (filter (\<lambda>n. real_of_int n > 0.7 * real_of_int 100) [100, 80, 0, 0]) = 2"
    by simp
  have r1: "40 < max \<lfloor>0.9 * real_of_int 100\<rfloor> 50
           \<or> 1 < length (filter (\<lambda>n. real_of_int n > 0.7 * real_of_int 40)
                [res_nGood (checked 100 40 2), res_nGood (checked 100 0 0),
                 res_nGood (checked 100 0 0), res_nGood (checked 100 0 0)])"
    using a by simp
  have r2: "100 < max \<lfloor>0.9 * real_of_int 100\<rfloor> 50
           \<or> 1 < length (filter (\<lambda>n. real_of_int n > 0.7 * real_of_int 100)
                [res_nGood (checked 100 100 2), res_nGood (checked 100 80 2),
                 res_nGood (checked 100 0 0), res_nGood (checked 100 0 0)])"
    by (simp add: res_nGood_checked)
  show ?thesis
    using a b ReconstructF_rejects [OF n m1 r1, of I3 I3 "(1, 0, 0)" "(- 1, 0, 0)" 1
            "\<lparr> io_R21 = Some I3, io_t21 = Some (0, 1, 0), io_vP3D = [(1, 1, 1)],
               io_vbTriangulated = [True] \<rparr>"]
          ReconstructF_rejects [OF n m2 r2, of I3 I3 "(1, 0, 0)" "(- 1, 0, 0)" 1 io_empty]
    by (simp add: io_empty_def)
qed

text \<open>
  The claim as the specification words it fails twice. With 61 inliers and 54 good points
  for the first hypothesis only, 54 is below \<open>0.9 \<sqdot> 61 = 54.9\<close> but not below its integer
  part, and \<^verbatim>\<open>ReconstructF\<close> accepts. With counts of 100 and 70 two hypotheses reach 70%
  of the best count, but only one exceeds it, and \<^verbatim>\<open>ReconstructF\<close> accepts.
\<close>

theorem ReconstructF_accepts_below_claimed_threshold:
  "(54::real) < max (0.9 * 61) 50 \<and>
   ReconstructF_select 61 I3 I3 (1, 0, 0) (- 1, 0, 0)
       (checked 61 54 2) (checked 61 0 0) (checked 61 0 0) (checked 61 0 0) 1 50 io_empty
     = (True, \<lparr> io_R21 = Some I3, io_t21 = Some (1, 0, 0), io_vP3D = res_vP3D (checked 61 54 2),
                 io_vbTriangulated = res_vbGood (checked 61 54 2) \<rparr>) \<and>
   (70::real) \<ge> 0.7 * 100 \<and>
   length (filter (\<lambda>n. real_of_int n \<ge> 0.7 * 100) [100, 70, 0, 0]) = 2 \<and>
   ReconstructF_select 100 I3 I3 (1, 0, 0) (- 1, 0, 0)
       (checked 100 100 2) (checked 100 70 2) (checked 100 0 0) (checked 100 0 0) 1 50 io_empty
     = (True, \<lparr> io_R21 = Some I3, io_t21 = Some (1, 0, 0), io_vP3D = res_vP3D (checked 100 100 2),
                 io_vbTriangulated = res_vbGood (checked 100 100 2) \<rparr>)"
  by (simp add: ReconstructF_select_def checked_def static_cast_int_def io_empty_def Let_def)

subsection \<open>Acceptance by ReconstructH\<close>

lemma ReconstructH_loop_snoc:
  "ReconstructH_loop i (cs @ [c]) s = ReconstructH_body (i + length cs) c (ReconstructH_loop i cs s)"
  by (induction cs arbitrary: i s) simp_all

lemma best_count_snoc: "best_count (cs @ [c]) = max (best_count cs) (res_nGood c)"
proof -
  let ?A = "set (0 # map res_nGood cs)"
  have e: "set (0 # map res_nGood (cs @ [c])) = insert (res_nGood c) ?A"
    by auto
  have fin: "finite ?A" and ne: "?A \<noteq> {}" by simp_all
  have "Max (insert (res_nGood c) ?A) = max (res_nGood c) (Max ?A)"
    using fin ne by (rule Max_insert)
  then show ?thesis unfolding best_count_def e by (simp only: max.commute)
qed

lemma best_count_nonneg: "0 \<le> best_count cs"
  by (simp add: best_count_def)

lemma best_count_upper: "c \<in> set cs \<Longrightarrow> res_nGood c \<le> best_count cs"
  by (simp add: best_count_def)

lemma best_count_in: "best_count cs \<in># mset (0 # 0 # map res_nGood cs)"
proof -
  have "Max (set (0 # map res_nGood cs)) \<in> set (0 # map res_nGood cs)"
    by (rule Max_in) simp_all
  then show ?thesis by (auto simp: best_count_def)
qed

lemma second_count_snoc:
  "second_count (cs @ [c]) =
     (if res_nGood c > best_count cs then best_count cs else max (second_count cs) (res_nGood c))"
proof (cases "res_nGood c > best_count cs")
  case True
  then have b: "best_count (cs @ [c]) = res_nGood c" by (simp add: best_count_snoc)
  have "mset (0 # 0 # map res_nGood (cs @ [c])) - {#res_nGood c#} = mset (0 # 0 # map res_nGood cs)"
    by simp
  then have "second_count (cs @ [c]) = Max (set_mset (mset (0 # 0 # map res_nGood cs)))"
    unfolding second_count_def b by simp
  also have "\<dots> = best_count cs" by (simp add: best_count_def)
  finally show ?thesis using True by simp
next
  case False
  then have b: "best_count (cs @ [c]) = best_count cs" by (simp add: best_count_snoc)
  let ?M = "mset (0 # 0 # map res_nGood cs)"
  have in_M: "best_count cs \<in># ?M" by (rule best_count_in)
  have "mset (0 # 0 # map res_nGood (cs @ [c])) = add_mset (res_nGood c) ?M"
    by simp
  then have eq: "mset (0 # 0 # map res_nGood (cs @ [c])) - {#best_count cs#}
          = add_mset (res_nGood c) (?M - {#best_count cs#})"
    using in_M by (simp only: diff_union_swap2)
  have ne: "set_mset (?M - {#best_count cs#}) \<noteq> {}"
  proof
    assume "set_mset (?M - {#best_count cs#}) = {}"
    then have "size (?M - {#best_count cs#}) = 0" by simp
    moreover have "size (?M - {#best_count cs#}) = size ?M - 1"
      using in_M by (simp add: size_Diff_singleton)
    ultimately show False by simp
  qed
  have "second_count (cs @ [c]) = Max (set_mset (add_mset (res_nGood c) (?M - {#best_count cs#})))"
    unfolding second_count_def b eq ..
  also have "\<dots> = Max (insert (res_nGood c) (set_mset (?M - {#best_count cs#})))"
    by (simp only: set_mset_add_mset_insert)
  also have "\<dots> = max (res_nGood c) (Max (set_mset (?M - {#best_count cs#})))"
    using finite_set_mset ne by (rule Max_insert)
  also have "\<dots> = max (second_count cs) (res_nGood c)"
    unfolding second_count_def by (simp only: max.commute)
  finally show ?thesis using False by simp
qed

lemma winner_snoc_new:
  assumes "res_nGood c > best_count cs"
  shows "winner (cs @ [c]) = length cs"
proof -
  have b: "best_count (cs @ [c]) = res_nGood c" using assms by (simp add: best_count_snoc)
  have "\<forall>x \<in> set cs. res_nGood x \<noteq> res_nGood c"
    using assms best_count_upper by fastforce
  then show ?thesis unfolding winner_def b by (simp add: takeWhile_append2)
qed

lemma winner_snoc_old:
  assumes "\<not> res_nGood c > best_count cs" and "winner cs < length cs"
  shows "winner (cs @ [c]) = winner cs"
proof -
  have b: "best_count (cs @ [c]) = best_count cs" using assms(1) by (simp add: best_count_snoc)
  have n: "\<not> res_nGood (cs ! winner cs) \<noteq> best_count cs"
    using assms(2) unfolding winner_def by (rule nth_length_takeWhile)
  have m: "cs ! winner cs \<in> set cs" using assms(2) by simp
  have "takeWhile (\<lambda>c. res_nGood c \<noteq> best_count cs) (cs @ [c])
          = takeWhile (\<lambda>c. res_nGood c \<noteq> best_count cs) cs"
    using m n by (rule takeWhile_append1)
  then show ?thesis unfolding winner_def b by simp
qed

lemma ReconstructH_loop_best: "best_inv cs (ReconstructH_loop 0 cs best_init)"
proof (induction cs rule: rev_induct)
  case Nil
  show ?case
    by (simp add: best_inv_def best_init_def best_count_def second_count_def)
next
  case (snoc c cs)
  let ?s = "ReconstructH_loop 0 cs best_init"
  let ?s' = "ReconstructH_loop 0 (cs @ [c]) best_init"
  from snoc have bg: "bestGood ?s = best_count cs" and sg: "secondBestGood ?s = second_count cs"
    by (simp_all add: best_inv_def)
  have s': "?s' = ReconstructH_body (length cs) c ?s"
    by (simp add: ReconstructH_loop_snoc)
  show ?case
  proof (cases "res_nGood c > best_count cs")
    case True
    have pos: "best_count (cs @ [c]) > 0"
      using True best_count_nonneg [of cs] by (simp add: best_count_snoc)
    have new: "?s' = ?s\<lparr>secondBestGood := best_count cs, bestGood := res_nGood c,
                 bestSolutionIdx := int (length cs), bestParallax := res_parallax c,
                 bestP3D := res_vP3D c, bestTriangulated := res_vbGood c\<rparr>"
      using True bg unfolding s' by (simp add: ReconstructH_body_def Let_def)
    have b: "best_count (cs @ [c]) = res_nGood c" using True by (simp add: best_count_snoc)
    have sc: "second_count (cs @ [c]) = best_count cs" using True by (simp add: second_count_snoc)
    show ?thesis
      unfolding best_inv_def new b sc winner_snoc_new [OF True]
      using pos b by simp
  next
    case False
    have b: "best_count (cs @ [c]) = best_count cs" using False by (simp add: best_count_snoc)
    have sc: "second_count (cs @ [c]) = max (second_count cs) (res_nGood c)"
      using False by (simp add: second_count_snoc)
    have new: "?s' = ?s\<lparr>secondBestGood := max (second_count cs) (res_nGood c)\<rparr>"
      using False bg sg unfolding s' by (simp add: ReconstructH_body_def Let_def max_def)
    show ?thesis
    proof (cases "best_count cs > 0")
      case pos: True
      with snoc have w: "winner cs < length cs" 
        and rest: "bestSolutionIdx ?s = int (winner cs)" "bestParallax ?s = res_parallax (cs ! winner cs)"
           "bestP3D ?s = res_vP3D (cs ! winner cs)" "bestTriangulated ?s = res_vbGood (cs ! winner cs)"
        by (simp_all add: best_inv_def)
      show ?thesis
        unfolding best_inv_def new b sc winner_snoc_old [OF False w]
        using pos w rest bg by (simp add: nth_append)
    next
      case npos: False
      show ?thesis
        unfolding best_inv_def new b sc
        using npos bg by simp
    qed
  qed
qed

lemma second_count_nonneg: "0 \<le> second_count cs"
proof (induction cs rule: rev_induct)
  case Nil
  show ?case by (simp add: second_count_def best_count_def)
next
  case (snoc c cs)
  then show ?case using best_count_nonneg [of cs] by (simp add: second_count_snoc max_def)
qed

lemma ReconstructH_select_best:
  "ReconstructH_select N hyps cs minParallax minTriangulated io =
     (if real_of_int (second_count cs) < 0.75 * real_of_int (best_count cs)
         \<and> best_count cs > minTriangulated
         \<and> real_of_int (best_count cs) > 0.9 * real_of_int N
         \<and> res_parallax (cs ! winner cs) \<ge> minParallax
      then (True, io\<lparr>io_R21 := Some (fst (hyps ! winner cs)),
                      io_t21 := Some (snd (hyps ! winner cs)),
                      io_vP3D := res_vP3D (cs ! winner cs),
                      io_vbTriangulated := res_vbGood (cs ! winner cs)\<rparr>)
      else (False, io))"
proof -
  let ?s = "ReconstructH_loop 0 cs best_init"
  have inv: "best_inv cs ?s" by (rule ReconstructH_loop_best)
  then have bg: "bestGood ?s = best_count cs" and sg: "secondBestGood ?s = second_count cs"
    by (simp_all add: best_inv_def)
  show ?thesis
  proof (cases "best_count cs > 0")
    case True
    with inv have "bestSolutionIdx ?s = int (winner cs)"
      "bestParallax ?s = res_parallax (cs ! winner cs)"
      "bestP3D ?s = res_vP3D (cs ! winner cs)"
      "bestTriangulated ?s = res_vbGood (cs ! winner cs)"
      by (simp_all add: best_inv_def)
    then show ?thesis
      unfolding ReconstructH_select_def Let_def bg sg by auto
  next
    case False
    with best_count_nonneg [of cs] have z: "best_count cs = 0" by simp
    have "\<not> real_of_int (second_count cs) < 0.75 * real_of_int (best_count cs)"
      using second_count_nonneg [of cs] unfolding z by simp
    then show ?thesis
      unfolding ReconstructH_select_def Let_def bg sg by simp
  qed
qed

lemma ReconstructH_unfold:
  assumes "Faugeras H21 K = ((d1, d2, d3), hyps)"
      and "\<not> (flt (fdiv (Fin d1) (Fin d2)) (Fin double_1_00001)
              \<or> flt (fdiv (Fin d2) (Fin d3)) (Fin double_1_00001))"
      and "collect (map (\<lambda>(R, t). CheckRT Triangulate R t (mvKeys1 this) (mvKeys2 this)
                                       (mvMatches12 this) vbMatchesInliers K [] (4.0 * mSigma2 this))
                          hyps) = Inr cs"
  shows "ReconstructH Triangulate Faugeras this vbMatchesInliers H21 K io minParallax minTriangulated
           = Inr (ReconstructH_select (count_inliers vbMatchesInliers) hyps cs
                    minParallax minTriangulated io)"
  using assms by (simp add: ReconstructH_def Let_def)

lemma sample_counts:
  "best_count (checked k n p # replicate 7 (checked k 0 0)) = int n"
  "second_count (checked k n p # replicate 7 (checked k 0 0)) = 0"
  "0 < n \<Longrightarrow> winner (checked k n p # replicate 7 (checked k 0 0)) = 0"
    by (simp_all add: best_count_def second_count_def winner_def checked_def numeral_eq_Suc)

text \<open>
  Claim C3, as the code has it. After the eight calls of \<^verbatim>\<open>CheckRT\<close>, \<^verbatim>\<open>ReconstructH\<close>
  accepts, returning true with the rotation, the translation, the points and the flags of
  the best hypothesis copied out, if and only if the second-best count is less than 0.75
  times the best count, the best count is strictly greater than \<^verbatim>\<open>minTriangulated\<close>, the
  best count is greater than \<open>0.9 N\<close>, and the parallax of the best hypothesis is at least
  \<^verbatim>\<open>minParallax\<close>; otherwise it returns false and leaves its outputs as they were.
\<close>

theorem ReconstructH_accepts_iff:
  "ReconstructH_select N hyps cs minParallax minTriangulated io =
     (if real_of_int (second_count cs) < 0.75 * real_of_int (best_count cs)
         \<and> best_count cs > minTriangulated
         \<and> real_of_int (best_count cs) > 0.9 * real_of_int N
         \<and> res_parallax (cs ! winner cs) \<ge> minParallax
      then (True, io\<lparr>io_R21 := Some (fst (hyps ! winner cs)),
                      io_t21 := Some (snd (hyps ! winner cs)),
                      io_vP3D := res_vP3D (cs ! winner cs),
                      io_vbTriangulated := res_vbGood (cs ! winner cs)\<rparr>)
      else (False, io))"
  by (rule ReconstructH_select_best)

text \<open>
  With \<^verbatim>\<open>minTriangulated\<close> 50, as in the call by \<^verbatim>\<open>Initialize\<close>, a best count of 51 is
  accepted and a best count of 50 is not.
\<close>

theorem ReconstructH_accepts_iff_witness:
  "best_count (checked 51 51 2 # replicate 7 (checked 51 0 0)) = 51 \<and>
   second_count (checked 51 51 2 # replicate 7 (checked 51 0 0)) = 0 \<and>
   winner (checked 51 51 2 # replicate 7 (checked 51 0 0)) = 0 \<and>
   ReconstructH_select 51 (replicate 8 (I3, (1, 0, 0)))
       (checked 51 51 2 # replicate 7 (checked 51 0 0)) 1 50 io_empty
     = (True, \<lparr> io_R21 = Some I3, io_t21 = Some (1, 0, 0), io_vP3D = replicate 51 (0, 0, 4),
                 io_vbTriangulated = replicate 51 True \<rparr>) \<and>
   best_count (checked 50 50 2 # replicate 7 (checked 50 0 0)) = 50 \<and>
   ReconstructH_select 50 (replicate 8 (I3, (1, 0, 0)))
       (checked 50 50 2 # replicate 7 (checked 50 0 0)) 1 50 io_empty = (False, io_empty)"
  using ReconstructH_accepts_iff [of 51 "replicate 8 (I3, (1, 0, 0))"
          "checked 51 51 2 # replicate 7 (checked 51 0 0)" 1 50 io_empty]
        ReconstructH_accepts_iff [of 50 "replicate 8 (I3, (1, 0, 0))"
          "checked 50 50 2 # replicate 7 (checked 50 0 0)" 1 50 io_empty]
  by (simp add: sample_counts) (simp add: checked_def io_empty_def numeral_eq_Suc)

text \<open>
  The claim as the specification words it fails at its boundary. With 50 inliers, a best
  hypothesis of exactly 50 good points, no good point for the other seven and two degrees
  of parallax, \<^verbatim>\<open>ReconstructH\<close> returns false and copies nothing out: the test is
  \<^verbatim>\<open>bestGood>minTriangulated\<close>. With 51 it accepts.
\<close>

theorem ReconstructH_rejects_exactly_minTriangulated:
  "ReconstructH_select 50 (replicate 8 (I3, (1, 0, 0)))
       (checked 50 50 2 # replicate 7 (checked 50 0 0)) 1 50 io_empty = (False, io_empty) \<and>
   fst (ReconstructH_select 51 (replicate 8 (I3, (1, 0, 0)))
       (checked 51 51 2 # replicate 7 (checked 51 0 0)) 1 50 io_empty)"
  by (simp add: ReconstructH_select_def ReconstructH_body_def best_init_def checked_def
        numeral_eq_Suc Let_def)

subsection \<open>Scores and inlier flags\<close>











text \<open>
  A chi-square that is infinite fails the threshold, as in \<^verbatim>\<open>CheckFundamental\<close> for the
  matrix with the single entry \<open>f33 = 1\<close>, whose epipolar lines have no direction. A
  chi-square that is NaN neither fails the threshold nor is at most the threshold: the
  flag stays set and the score becomes NaN, as in \<^verbatim>\<open>CheckHomography\<close> for a homography
  whose last row is zero. The hypotheses of the theorem exclude NaN.
\<close>

lemma scorers_degenerate_sample:
  "chiSquare1_F ((0, 0, 0), (0, 0, 0), (0, 0, 1)) 1 (1, 0) (5, 0) = PInf"
  "chiSquare2_F ((0, 0, 0), (0, 0, 0), (0, 0, 1)) 1 (1, 0) (5, 0) = PInf"
  "CheckFundamental [(1, 0)] [(5, 0)] [(0, 0)] ((0, 0, 0), (0, 0, 0), (0, 0, 1)) 1
     = Inr (Fin 0, [False])"
  "chiSquare2_H ((1, 0, 0), (0, 1, 0), (0, 0, 0)) 1 (1, 0) (1, 0) = NaN"
  "CheckHomography [(1, 0)] [(1, 0)] [(0, 0)] ((1, 0, 0), (0, 1, 0), (0, 0, 0)) I3 1
     = Inr (NaN, [True])"
  by (simp_all add: CheckFundamental_def CheckFundamental_body_def CheckHomography_def
        CheckHomography_body_def chiSquare1_F_def chiSquare2_F_def chiSquare1_H_def
        chiSquare2_H_def fadd_def fsub_def fmul_def fdiv_def one_over_def exact_simps I3_def
        float_3_841_def float_5_991_def Let_def)

subsection \<open>The loop of CheckRT\<close>

lemma for_each_invariant:
  assumes "for_each body i xs s = Inr s'"
      and "P s"
      and "\<And>i x s s'. P s \<Longrightarrow> body i x s = Inr s' \<Longrightarrow> P s'"
  shows "P s'"
  using assms(1,2)
proof (induction xs arbitrary: i s)
  case Nil
  then show ?case by simp
next
  case (Cons x xs)
  from Cons.prems(1) obtain s1
    where b: "body i x s = Inr s1" and r: "for_each body (Suc i) xs s1 = Inr s'"
    by (auto split: sum.splits)
  from assms(3) [OF Cons.prems(2) b] have "P s1" .
  with r show ?case by (rule Cons.IH)
qed

lemma count_true_update_False: "count_true (bs[i := False]) \<le> count_true bs"
proof (induction bs arbitrary: i)
  case Nil
  then show ?case by (simp add: count_true_def)
next
  case (Cons b bs)
  show ?case
  proof (cases i)
    case 0
    then show ?thesis by (simp add: count_true_def)
  next
    case (Suc j)
    with Cons.IH [of j] show ?thesis by (simp add: count_true_def)
  qed
qed

lemma count_true_update_True: "count_true (bs[i := True]) \<le> Suc (count_true bs)"
proof (induction bs arbitrary: i)
  case Nil
  then show ?case by (simp add: count_true_def)
next
  case (Cons b bs)
  show ?case
  proof (cases i)
    case 0
    then show ?thesis by (simp add: count_true_def)
  next
    case (Suc j)
    with Cons.IH [of j] show ?thesis by (simp add: count_true_def)
  qed
qed

lemma CheckRT_body_inv:
  assumes "CheckRT_inv s" and "CheckRT_body Tri R t k1 k2 inl K th2 i m s = Inr s'"
  shows "CheckRT_inv s'"
proof -
  have F: "int (count_true ((vbGood s)[fst m := False])) \<le> nGood s"
    using assms(1) count_true_update_False [of "vbGood s" "fst m"] by (simp add: CheckRT_inv_def)
  have T: "int (count_true ((vbGood s)[fst m := True])) \<le> nGood s + 1"
    using assms(1) count_true_update_True [of "vbGood s" "fst m"] by (simp add: CheckRT_inv_def)
  show ?thesis
    using assms F T
    by (auto simp: CheckRT_body_def CheckRT_inv_def Let_def nat_add_distrib
             split: if_splits option.splits)
qed

lemma CheckRT_loop_inv:
  assumes "CheckRT_loop Tri R t k1 k2 ms inl K v0 th2 = Inr s"
  shows "CheckRT_inv s"
proof (rule for_each_invariant [where P = CheckRT_inv])
  show "for_each (CheckRT_body (Tri K R t) R t k1 k2 inl K th2) 0 ms
          \<lparr> vP3D = resize (length k1) (0, 0, 0) v0, vbGood = replicate (length k1) False,
            vCosParallax = [], nGood = 0 \<rparr> = Inr s"
    using assms by (simp add: CheckRT_loop_def)
  show "CheckRT_inv \<lparr> vP3D = resize (length k1) (0, 0, 0) v0, vbGood = replicate (length k1) False,
            vCosParallax = [], nGood = 0 \<rparr>"
    by (simp add: CheckRT_inv_def count_true_def)
  show "\<And>i x s s'. CheckRT_inv s \<Longrightarrow>
          CheckRT_body (Tri K R t) R t k1 k2 inl K th2 i x s = Inr s' \<Longrightarrow> CheckRT_inv s'"
    by (rule CheckRT_body_inv)
qed

subsection \<open>The parallax that CheckRT returns\<close>

text \<open>
  Claim C6. When the loop of \<^verbatim>\<open>CheckRT\<close> ends in state \<open>s\<close>, the number of recorded
  cosines is \<^verbatim>\<open>nGood\<close>, and the parallax returned is 0 when \<^verbatim>\<open>nGood\<close> is 0 and otherwise
  the arc cosine, in degrees, of the entry of the sorted cosines at index 50 when there
  are at least 51 of them and at the last index when there are fewer.
\<close>

theorem CheckRT_parallax_index:
  assumes "CheckRT_loop Triangulate R t vKeys1 vKeys2 vMatches12 vbMatchesInliers K vP3D0 th2 = Inr s"
  shows "CheckRT Triangulate R t vKeys1 vKeys2 vMatches12 vbMatchesInliers K vP3D0 th2 =
           Inr \<lparr> res_nGood = nGood s, res_vP3D = vP3D s, res_vbGood = vbGood s,
                 res_parallax =
                   (if nGood s = 0 then 0
                    else arccos (sort (vCosParallax s) !
                                   (if 51 \<le> nGood s then 50 else length (vCosParallax s) - 1))
                         * 180 / pi) \<rparr>
         \<and> 0 \<le> nGood s \<and> length (vCosParallax s) = nat (nGood s)"
proof -
  from assms have inv: "CheckRT_inv s" by (rule CheckRT_loop_inv)
  then have n: "0 \<le> nGood s" and l: "length (vCosParallax s) = nat (nGood s)"
    by (simp_all add: CheckRT_inv_def)
  have idx: "nGood s > 0 \<Longrightarrow> nat (min 50 (int (length (sort (vCosParallax s))) - 1))
               = (if 51 \<le> nGood s then 50 else length (vCosParallax s) - 1)"
    using n l by (auto simp: min_def)
  have "CheckRT_parallax s = (if nGood s = 0 then 0
                    else arccos (sort (vCosParallax s) !
                                   (if 51 \<le> nGood s then 50 else length (vCosParallax s) - 1))
                         * 180 / pi)"
  proof (cases "nGood s = 0")
    case True
    then show ?thesis by (simp add: CheckRT_parallax_def)
  next
    case False
    with n have pos: "nGood s > 0" by simp
    show ?thesis
      using pos idx [OF pos] False unfolding CheckRT_parallax_def Let_def by simp
  qed
  with assms n l show ?thesis by (simp add: CheckRT_def)
qed

text \<open>Evaluation of the loop on the sample views.\<close>

lemma sqrt_16: "sqrt 16 = 4"
  using real_sqrt_abs2 [of 4] by simp

lemma sqrt_25: "sqrt 25 = 5"
  using real_sqrt_abs2 [of 5] by simp

lemma sqrt_81_16: "sqrt (81 / 16) = 9 / 4"
  using real_sqrt_abs2 [of "9 / 4"] by simp

lemma sqrt_225_16: "sqrt (225 / 16) = 15 / 4"
  using real_sqrt_abs2 [of "15 / 4"] by simp

lemma sqrt_1296_25: "sqrt (1296 / 25) = 36 / 5"
  using real_sqrt_abs2 [of "36 / 5"] by simp

lemma sqrt_1521_25: "sqrt (1521 / 25) = 39 / 5"
  using real_sqrt_abs2 [of "39 / 5"] by simp

lemmas geometry_defs =
  I3_def cos_parallax_def square_error_def neg3_def sub3_def add3_def dot3_def norm3_def
  mat_vec_def transpose3_def vz_def

lemma body_depth_4:
  assumes "i < length inl" "inl ! i" "fst m < length k1" "snd m < length k2"
      and "k1 ! fst m = (0, 0)" "k2 ! snd m = (- 3 / 4, 0)"
  shows "CheckRT_body (triangulate_sample I3 I3 (- 3, 0, 0)) I3 (- 3, 0, 0) k1 k2 inl I3 4 i m s
    = Inr (s\<lparr>vCosParallax := vCosParallax s @ [4 / 5], vP3D := (vP3D s)[fst m := (0, 0, 4)],
            nGood := nGood s + 1, vbGood := (vbGood s)[fst m := True]\<rparr>)"
  using assms
  by (simp add: CheckRT_body_def triangulate_sample_def geometry_defs Let_def sqrt_16 sqrt_25)

lemma body_depth_9_4:
  assumes "i < length inl" "inl ! i" "fst m < length k1" "snd m < length k2"
      and "k1 ! fst m = (0, 0)" "k2 ! snd m = (- 4 / 3, 0)"
  shows "CheckRT_body (triangulate_sample I3 I3 (- 3, 0, 0)) I3 (- 3, 0, 0) k1 k2 inl I3 4 i m s
    = Inr (s\<lparr>vCosParallax := vCosParallax s @ [3 / 5], vP3D := (vP3D s)[fst m := (0, 0, 9 / 4)],
            nGood := nGood s + 1, vbGood := (vbGood s)[fst m := True]\<rparr>)"
  using assms
  by (simp add: CheckRT_body_def triangulate_sample_def geometry_defs Let_def sqrt_81_16 sqrt_225_16)

lemma body_depth_36_5:
  assumes "i < length inl" "inl ! i" "fst m < length k1" "snd m < length k2"
      and "k1 ! fst m = (0, 0)" "k2 ! snd m = (- 5 / 12, 0)"
  shows "CheckRT_body (triangulate_sample I3 I3 (- 3, 0, 0)) I3 (- 3, 0, 0) k1 k2 inl I3 4 i m s
    = Inr (s\<lparr>vCosParallax := vCosParallax s @ [12 / 13], vP3D := (vP3D s)[fst m := (0, 0, 36 / 5)],
            nGood := nGood s + 1, vbGood := (vbGood s)[fst m := True]\<rparr>)"
  using assms
  by (simp add: CheckRT_body_def triangulate_sample_def geometry_defs Let_def sqrt_1296_25 sqrt_1521_25)

lemma block_depth_9_4:
  assumes "\<forall>j. i \<le> j \<and> j < i + n \<longrightarrow>
              j < length inl \<and> inl ! j \<and> j < length k1 \<and> j < length k2
              \<and> k1 ! j = (0, 0) \<and> k2 ! j = (- 4 / 3, 0)"
  shows "\<exists>s'. for_each (CheckRT_body (triangulate_sample I3 I3 (- 3, 0, 0)) I3 (- 3, 0, 0) k1 k2 inl I3 4) i
                  (map (\<lambda>j. (j, j)) [i..<i + n]) s = Inr s'
              \<and> nGood s' = nGood s + int n
              \<and> vCosParallax s' = vCosParallax s @ replicate n (3 / 5)"
  using assms
proof (induction n arbitrary: i s)
  case 0
  then show ?case by simp
next
  case (Suc n)
  let ?s1 = "s\<lparr>vCosParallax := vCosParallax s @ [3 / 5], vP3D := (vP3D s)[i := (0, 0, 9 / 4)],
               nGood := nGood s + 1, vbGood := (vbGood s)[i := True]\<rparr>"
  have step: "CheckRT_body (triangulate_sample I3 I3 (- 3, 0, 0)) I3 (- 3, 0, 0) k1 k2 inl I3 4 i (i, i) s
                = Inr ?s1"
    using Suc.prems body_depth_9_4 [of i inl "(i, i)" k1 k2 s] by simp
  have "\<forall>j. Suc i \<le> j \<and> j < Suc i + n \<longrightarrow>
              j < length inl \<and> inl ! j \<and> j < length k1 \<and> j < length k2
              \<and> k1 ! j = (0, 0) \<and> k2 ! j = (- 4 / 3, 0)"
    using Suc.prems by simp
  from Suc.IH [OF this, of ?s1]
  obtain s' where r: "for_each (CheckRT_body (triangulate_sample I3 I3 (- 3, 0, 0)) I3 (- 3, 0, 0)
                                   k1 k2 inl I3 4) (Suc i) (map (\<lambda>j. (j, j)) [Suc i..<Suc i + n]) ?s1
                        = Inr s'"
     and n': "nGood s' = nGood ?s1 + int n"
     and c': "vCosParallax s' = vCosParallax ?s1 @ replicate n (3 / 5)"
    by blast
  have l: "[i..<i + Suc n] = i # [Suc i..<Suc i + n]"
    by (simp add: upt_conv_Cons)
  show ?case
    using r n' c' step unfolding l by (simp add: replicate_append_same)
qed

lemma loop_sample:
  "\<exists>s. CheckRT_loop triangulate_sample I3 (- 3, 0, 0) (replicate 52 (0, 0)) keys2_sample
          (map (\<lambda>i. (i, i)) [0..<52]) (replicate 52 True) I3 [] 4 = Inr s
      \<and> nGood s = 52 \<and> vCosParallax s = [4 / 5, 12 / 13] @ replicate 50 (3 / 5)"
proof -
  let ?body = "CheckRT_body (triangulate_sample I3 I3 (- 3, 0, 0)) I3 (- 3, 0, 0)
                 (replicate 52 (0, 0)) keys2_sample (replicate 52 True) I3 4"
  let ?s0 = "\<lparr> vP3D = resize (length (replicate 52 (0::real, 0::real))) (0, 0, 0) [],
               vbGood = replicate (length (replicate 52 (0::real, 0::real))) False,
               vCosParallax = [], nGood = 0 \<rparr>"
  let ?s1 = "?s0\<lparr>vCosParallax := vCosParallax ?s0 @ [4 / 5], vP3D := (vP3D ?s0)[0 := (0, 0, 4)],
                 nGood := nGood ?s0 + 1, vbGood := (vbGood ?s0)[0 := True]\<rparr>"
  let ?s2 = "?s1\<lparr>vCosParallax := vCosParallax ?s1 @ [12 / 13], vP3D := (vP3D ?s1)[1 := (0, 0, 36 / 5)],
                 nGood := nGood ?s1 + 1, vbGood := (vbGood ?s1)[1 := True]\<rparr>"
  have l: "[0..<52] = 0 # 1 # [2..<2 + 50]"
    by (simp add: upt_conv_Cons)
  have b0: "?body 0 (0, 0) ?s0 = Inr ?s1"
    using body_depth_4 [of 0 "replicate 52 True" "(0, 0)" "replicate 52 (0, 0)" keys2_sample ?s0]
    by (simp add: keys2_sample_def)
  have b1: "?body (Suc 0) (1, 1) ?s1 = Inr ?s2"
    using body_depth_36_5 [of 1 "replicate 52 True" "(1, 1)" "replicate 52 (0, 0)" keys2_sample ?s1]
    by (simp add: keys2_sample_def)
  have "\<forall>j. 2 \<le> j \<and> j < 2 + 50 \<longrightarrow>
              j < length (replicate 52 True) \<and> replicate 52 True ! j
              \<and> j < length (replicate 52 (0::real, 0::real)) \<and> j < length keys2_sample
              \<and> replicate 52 (0::real, 0::real) ! j = (0, 0) \<and> keys2_sample ! j = (- 4 / 3, 0)"
    by (auto simp: keys2_sample_def nth_Cons')
  from block_depth_9_4 [OF this, of ?s2]
  obtain s where r: "for_each ?body 2 (map (\<lambda>j. (j, j)) [2..<2 + 50]) ?s2 = Inr s"
    and n: "nGood s = nGood ?s2 + int 50"
    and c: "vCosParallax s = vCosParallax ?s2 @ replicate 50 (3 / 5)"
    by blast
  have "CheckRT_loop triangulate_sample I3 (- 3, 0, 0) (replicate 52 (0, 0)) keys2_sample
          (map (\<lambda>i. (i, i)) [0..<52]) (replicate 52 True) I3 [] 4 = Inr s"
    unfolding CheckRT_loop_def l using b0 b1 r by (simp add: numeral_2_eq_2)
  with n c show ?thesis by simp
qed

lemma sort_sample:
  "sort ([4 / 5, 12 / 13] @ replicate 50 (3 / 5 :: real)) = replicate 50 (3 / 5) @ [4 / 5, 12 / 13]"
  by (rule properties_for_sort) (simp_all add: sorted_append)

text \<open>
  On the sample views 52 matches survive, with cosines 4/5, 12/13 and fifty times 3/5.
  Sorted, index 50 holds 4/5: the parallax is neither that of the last entry (12/13) nor
  that of the entry at index 49 (3/5). With the only match flagged as outlier nothing
  survives and the parallax is 0.
\<close>

theorem CheckRT_parallax_index_witness:
  "map_sum id res_nGood
     (CheckRT triangulate_sample I3 (- 3, 0, 0) (replicate 52 (0, 0)) keys2_sample
        (map (\<lambda>i. (i, i)) [0..<52]) (replicate 52 True) I3 [] 4) = Inr 52 \<and>
   map_sum id res_parallax
     (CheckRT triangulate_sample I3 (- 3, 0, 0) (replicate 52 (0, 0)) keys2_sample
        (map (\<lambda>i. (i, i)) [0..<52]) (replicate 52 True) I3 [] 4) = Inr (arccos (4 / 5) * 180 / pi) \<and>
   CheckRT triangulate_sample I3 (- 3, 0, 0) [(0, 0)] [(- 3 / 4, 0)] [(0, 0)] [False] I3 [] 4
     = Inr \<lparr> res_nGood = 0, res_vP3D = [(0, 0, 0)], res_vbGood = [False], res_parallax = 0 \<rparr>"
proof -
  from loop_sample obtain s where
    l: "CheckRT_loop triangulate_sample I3 (- 3, 0, 0) (replicate 52 (0, 0)) keys2_sample
          (map (\<lambda>i. (i, i)) [0..<52]) (replicate 52 True) I3 [] 4 = Inr s"
    and n: "nGood s = 52" and c: "vCosParallax s = [4 / 5, 12 / 13] @ replicate 50 (3 / 5)"
    by blast
  have e: "CheckRT_loop triangulate_sample I3 (- 3, 0, 0) [(0, 0)] [(- 3 / 4, 0)] [(0, 0)] [False] I3 [] 4
     = Inr \<lparr> vP3D = [(0, 0, 0)], vbGood = [False], vCosParallax = [], nGood = 0 \<rparr>"
    by (simp add: CheckRT_loop_def CheckRT_body_def resize_def)
  have i: "sort (vCosParallax s) ! 50 = 4 / 5"
    unfolding c sort_sample by (simp add: nth_append)
  show ?thesis
    using CheckRT_parallax_index [OF l] CheckRT_parallax_index [OF e] n i
    by simp
qed

subsection \<open>Points counted without being flagged good\<close>

text \<open>
  Claim C10. Whatever \<^verbatim>\<open>CheckRT\<close> returns, \<^verbatim>\<open>nGood\<close> is at least the number of set flags
  in \<^verbatim>\<open>vbGood\<close>. An inlier match whose point is finite, has a cosine of parallax of at
  least 0.99998 and reprojects within \<^verbatim>\<open>th2\<close> in both images has its cosine recorded, its
  point stored in \<^verbatim>\<open>vP3D\<close> and \<^verbatim>\<open>nGood\<close> incremented, while \<^verbatim>\<open>vbGood\<close> is not touched;
  the depth tests do not apply to it. For two views without translation and one such
  match, \<^verbatim>\<open>nGood\<close> is 1 and no flag is set.
\<close>

theorem CheckRT_counts_low_parallax_points:
  "(CheckRT Triangulate R t vKeys1 vKeys2 vMatches12 vbMatchesInliers K vP3D0 th2 = Inr r
      \<longrightarrow> int (count_true (res_vbGood r)) \<le> res_nGood r)
   \<and> (i < length vbMatchesInliers \<and> vbMatchesInliers ! i
        \<and> fst m < length vKeys1 \<and> snd m < length vKeys2
        \<and> Tri (vKeys1 ! fst m) (vKeys2 ! snd m) = Some p
        \<and> cos_parallax p (0, 0, 0) (neg3 (mat_vec (transpose3 R) t)) \<ge> 0.99998
        \<and> square_error K p (vKeys1 ! fst m) \<le> th2
        \<and> square_error K (add3 (mat_vec R p) t) (vKeys2 ! snd m) \<le> th2
      \<longrightarrow> CheckRT_body Tri R t vKeys1 vKeys2 vbMatchesInliers K th2 i m s =
            Inr (s\<lparr>vCosParallax :=
                     vCosParallax s @ [cos_parallax p (0, 0, 0) (neg3 (mat_vec (transpose3 R) t))],
                   vP3D := (vP3D s)[fst m := p], nGood := nGood s + 1\<rparr>))
   \<and> CheckRT (\<lambda>K R t kp1 kp2. Some (0, 0, 1)) I3 (0, 0, 0) [(0, 0)] [(0, 0)] [(0, 0)] [True] I3 [] 4
        = Inr \<lparr> res_nGood = 1, res_vP3D = [(0, 0, 1)], res_vbGood = [False], res_parallax = 0 \<rparr>"
proof (intro conjI impI)
  assume a: "CheckRT Triangulate R t vKeys1 vKeys2 vMatches12 vbMatchesInliers K vP3D0 th2 = Inr r"
  then obtain s0
    where l: "CheckRT_loop Triangulate R t vKeys1 vKeys2 vMatches12 vbMatchesInliers K vP3D0 th2 = Inr s0"
      and r: "r = \<lparr> res_nGood = nGood s0, res_vP3D = vP3D s0, res_vbGood = vbGood s0,
                    res_parallax = CheckRT_parallax s0 \<rparr>"
    by (auto simp: CheckRT_def split: sum.splits)
  from l have "CheckRT_inv s0" by (rule CheckRT_loop_inv)
  with r show "int (count_true (res_vbGood r)) \<le> res_nGood r" by (simp add: CheckRT_inv_def)
next
  assume "i < length vbMatchesInliers \<and> vbMatchesInliers ! i
        \<and> fst m < length vKeys1 \<and> snd m < length vKeys2
        \<and> Tri (vKeys1 ! fst m) (vKeys2 ! snd m) = Some p
        \<and> cos_parallax p (0, 0, 0) (neg3 (mat_vec (transpose3 R) t)) \<ge> 0.99998
        \<and> square_error K p (vKeys1 ! fst m) \<le> th2
        \<and> square_error K (add3 (mat_vec R p) t) (vKeys2 ! snd m) \<le> th2"
  then show "CheckRT_body Tri R t vKeys1 vKeys2 vbMatchesInliers K th2 i m s =
            Inr (s\<lparr>vCosParallax :=
                     vCosParallax s @ [cos_parallax p (0, 0, 0) (neg3 (mat_vec (transpose3 R) t))],
                   vP3D := (vP3D s)[fst m := p], nGood := nGood s + 1\<rparr>)"
    by (simp add: CheckRT_body_def Let_def not_less not_le)
next
  show "CheckRT (\<lambda>K R t kp1 kp2. Some (0, 0, 1)) I3 (0, 0, 0) [(0, 0)] [(0, 0)] [(0, 0)] [True] I3 [] 4
        = Inr \<lparr> res_nGood = 1, res_vP3D = [(0, 0, 1)], res_vbGood = [False], res_parallax = 0 \<rparr>"
    by (simp add: CheckRT_def CheckRT_loop_def CheckRT_body_def CheckRT_parallax_def resize_def
          geometry_defs Let_def)
qed

text \<open>
  The sample call: the cosine of the parallax is 1, both reprojection errors are 0, the
  body takes the branch of the claim, and the one point counted has no flag.
\<close>

theorem CheckRT_counts_low_parallax_points_witness:
  "cos_parallax (0, 0, 1) (0, 0, 0) (neg3 (mat_vec (transpose3 I3) (0, 0, 0))) = 1 \<and>
   square_error I3 (0, 0, 1) (0, 0) = 0 \<and>
   square_error I3 (add3 (mat_vec I3 (0, 0, 1)) (0, 0, 0)) (0, 0) = 0 \<and>
   CheckRT_body (\<lambda>kp1 kp2. Some (0, 0, 1)) I3 (0, 0, 0) [(0, 0)] [(0, 0)] [True] I3 4 0 (0, 0)
       \<lparr> vP3D = [(0, 0, 0)], vbGood = [False], vCosParallax = [], nGood = 0 \<rparr>
     = Inr \<lparr> vP3D = [(0, 0, 1)], vbGood = [False], vCosParallax = [1], nGood = 1 \<rparr> \<and>
   int (count_true [False]) < 1 \<and>
   int (count_true (res_vbGood \<lparr> res_nGood = 1, res_vP3D = [(0, 0, 1)], res_vbGood = [False],
                                 res_parallax = 0 \<rparr>))
     \<le> res_nGood \<lparr> res_nGood = 1, res_vP3D = [(0, 0, 1)], res_vbGood = [False], res_parallax = 0 \<rparr>"
proof -
  have c: "cos_parallax (0, 0, 1) (0, 0, 0) (neg3 (mat_vec (transpose3 I3) (0, 0, 0))) = 1"
    by (simp add: geometry_defs Let_def)
  have e1: "square_error I3 (0, 0, 1) (0, 0) = 0"
    by (simp add: geometry_defs Let_def)
  have e2: "square_error I3 (add3 (mat_vec I3 (0, 0, 1)) (0, 0, 0)) (0, 0) = 0"
    by (simp add: geometry_defs Let_def)
  show ?thesis
    using c e1 e2
      CheckRT_counts_low_parallax_points [of "\<lambda>K R t kp1 kp2. Some (0, 0, 1)" I3 "(0, 0, 0)"
        "[(0, 0)]" "[(0, 0)]" "[(0, 0)]" "[True]" I3 "[]" 4
        "\<lparr> res_nGood = 1, res_vP3D = [(0, 0, 1)], res_vbGood = [False], res_parallax = 0 \<rparr>"
        0 "(0, 0)" "\<lambda>kp1 kp2. Some (0, 0, 1)" "(0, 0, 1)"
        "\<lparr> vP3D = [(0, 0, 0)], vbGood = [False], vCosParallax = [], nGood = 0 \<rparr>"]
    by (simp add: count_true_def)
qed

subsection \<open>Stores of ReconstructLine\<close>

lemma length_resize: "length (resize n d xs) = n"
  by (simp add: resize_def)

lemma ReconstructLine_body_cases:
  assumes "line_lengths n s"
      and "fst m < length (mvKeyLines1 this) \<and> snd m < length (mvKeyLines2 this)
           \<and> fst m < length (mvKeyLineFunctions1 this) \<and> snd m < length (mvKeyLineFunctions2 this)"
  shows "(if ReconstructLine_endpoints invert LT this K R21 t21 m \<noteq> None \<and> n \<le> fst m
          then ReconstructLine_body invert LT this K R21 t21 i m s = Inl OutOfRange
          else (\<exists>s'. ReconstructLine_body invert LT this K R21 t21 i m s = Inr s' \<and> line_lengths n s'))"
  using assms
  by (auto simp: ReconstructLine_body_def line_lengths_def Let_def split: option.splits)

lemma for_each_ReconstructLine:
  assumes "line_lengths n s"
      and "\<forall>m \<in> set ms. fst m < length (mvKeyLines1 this) \<and> snd m < length (mvKeyLines2 this)
           \<and> fst m < length (mvKeyLineFunctions1 this) \<and> snd m < length (mvKeyLineFunctions2 this)"
  shows "(if \<exists>m \<in> set ms. ReconstructLine_endpoints invert LT this K R21 t21 m \<noteq> None \<and> n \<le> fst m
          then for_each (ReconstructLine_body invert LT this K R21 t21) i ms s = Inl OutOfRange
          else (\<exists>s'. for_each (ReconstructLine_body invert LT this K R21 t21) i ms s = Inr s' \<and> line_lengths n s'))"
  using assms
proof (induction ms arbitrary: i s)
  case Nil
  then show ?case by simp
next
  case (Cons m ms)
  have reads: "fst m < length (mvKeyLines1 this) \<and> snd m < length (mvKeyLines2 this)
           \<and> fst m < length (mvKeyLineFunctions1 this) \<and> snd m < length (mvKeyLineFunctions2 this)"
    using Cons.prems(2) by simp
  note b = ReconstructLine_body_cases [OF Cons.prems(1) reads, of invert LT K R21 t21 i]
  show ?case
  proof (cases "ReconstructLine_endpoints invert LT this K R21 t21 m \<noteq> None \<and> n \<le> fst m")
    case True
    with b show ?thesis by auto
  next
    case False
    with b obtain s1 where s1: "ReconstructLine_body invert LT this K R21 t21 i m s = Inr s1"
      and l1: "line_lengths n s1" by auto
    have "\<forall>m \<in> set ms. fst m < length (mvKeyLines1 this) \<and> snd m < length (mvKeyLines2 this)
           \<and> fst m < length (mvKeyLineFunctions1 this) \<and> snd m < length (mvKeyLineFunctions2 this)"
      using Cons.prems(2) by simp
    from Cons.IH [OF l1 this, of "Suc i"] False s1 show ?thesis by auto
  qed
qed

lemma ReconstructLine_cases:
  assumes "\<forall>m \<in> set ms. fst m < length (mvKeyLines1 this) \<and> snd m < length (mvKeyLines2 this)
           \<and> fst m < length (mvKeyLineFunctions1 this) \<and> snd m < length (mvKeyLineFunctions2 this)"
  shows "(if \<exists>m \<in> set ms. ReconstructLine_endpoints invert LT this K R21 t21 m \<noteq> None \<and> length (mvKeys1 this) \<le> fst m
          then ReconstructLine invert LT this ms K R21 t21 out = Inl OutOfRange
          else (\<exists>s'. ReconstructLine invert LT this ms K R21 t21 out = Inr s' \<and> line_lengths (length (mvKeys1 this)) s'))"
  unfolding ReconstructLine_def
  by (rule for_each_ReconstructLine) (simp_all add: line_lengths_def length_resize assms)


lemma endpoints_sample:
  "ReconstructLine_endpoints (\<lambda>M. M) line_triangulate_sample (lines_sample nkeys) I3 I3 (- 3, 0, 0) (1, 0)
     = Some ((3 / 2, 0, 3 / 2), (2, 1, 1))"
  by (simp add: ReconstructLine_endpoints_def line_triangulate_sample_def lines_sample_def
        SkewSymmetricMatrix_def mat_mul_def dot2_def norm2_def geometry_defs Let_def)

lemma lines_sample_sizes:
  "length (mvKeys1 (lines_sample nkeys)) = nkeys"
  "length (mvKeyLines1 (lines_sample nkeys)) = 2"
  "length (mvKeyLines2 (lines_sample nkeys)) = 1"
  "length (mvKeyLineFunctions1 (lines_sample nkeys)) = 2"
  "length (mvKeyLineFunctions2 (lines_sample nkeys)) = 1"
  by (simp_all add: lines_sample_def)

lemma out_of_range_sample:
  "ReconstructLine (\<lambda>M. M) line_triangulate_sample (lines_sample 1) [(1, 0)] I3 I3 (- 3, 0, 0)
       \<lparr> vLineS3D = [], vLineE3D = [], vbLineTriangulated = [] \<rparr> = Inl OutOfRange"
  using endpoints_sample [of 1]
  by (simp add: ReconstructLine_def ReconstructLine_body_def resize_def lines_sample_sizes)

lemma in_range_sample:
  "ReconstructLine (\<lambda>M. M) line_triangulate_sample (lines_sample 2) [(1, 0)] I3 I3 (- 3, 0, 0)
       \<lparr> vLineS3D = [], vLineE3D = [], vbLineTriangulated = [] \<rparr>
   = Inr \<lparr> vLineS3D = [(0, 0, 0), (3 / 2, 0, 3 / 2)], vLineE3D = [(0, 0, 0), (2, 1, 1)],
           vbLineTriangulated = [False, True] \<rparr>"
  using endpoints_sample [of 2]
  by (simp add: ReconstructLine_def ReconstructLine_body_def resize_def lines_sample_sizes
        numeral_2_eq_2)

text \<open>
  Claim C9. \<^verbatim>\<open>ReconstructLine\<close> resizes its three output vectors to the number of point
  features of the reference frame and stores, for each match that passes its tests, at the
  index of the reference line. For matches whose indices are within the line vectors, it
  runs past the end of an output vector exactly when a match that passes the tests has a
  reference line index at or beyond the number of point features; so it stays in bounds
  when every matched reference line index is below that number, and the outputs then have
  that many entries. In the sample call, with one point feature and a match of line 1,
  the store is out of bounds.
\<close>

theorem ReconstructLine_output_bounds:
  assumes "\<forall>m \<in> set vLineMatches.
             fst m < length (mvKeyLines1 this) \<and> snd m < length (mvKeyLines2 this)
             \<and> fst m < length (mvKeyLineFunctions1 this) \<and> snd m < length (mvKeyLineFunctions2 this)"
  shows "(ReconstructLine invert LineTriangulate this vLineMatches K R21 t21 out = Inl OutOfRange
            \<longleftrightarrow> (\<exists>m \<in> set vLineMatches.
                   ReconstructLine_endpoints invert LineTriangulate this K R21 t21 m \<noteq> None
                   \<and> length (mvKeys1 this) \<le> fst m))
       \<and> ((\<forall>m \<in> set vLineMatches. fst m < length (mvKeys1 this))
            \<longrightarrow> (\<exists>s. ReconstructLine invert LineTriangulate this vLineMatches K R21 t21 out = Inr s))
       \<and> (\<forall>s. ReconstructLine invert LineTriangulate this vLineMatches K R21 t21 out = Inr s
            \<longrightarrow> length (vLineS3D s) = length (mvKeys1 this)
                \<and> length (vLineE3D s) = length (mvKeys1 this)
                \<and> length (vbLineTriangulated s) = length (mvKeys1 this))
       \<and> ReconstructLine (\<lambda>M. M) line_triangulate_sample (lines_sample 1) [(1, 0)] I3 I3 (- 3, 0, 0)
             \<lparr> vLineS3D = [], vLineE3D = [], vbLineTriangulated = [] \<rparr> = Inl OutOfRange"
proof -
  note c = ReconstructLine_cases [OF assms, of invert LineTriangulate K R21 t21 out]
  show ?thesis
  proof (cases "\<exists>m \<in> set vLineMatches.
                   ReconstructLine_endpoints invert LineTriangulate this K R21 t21 m \<noteq> None
                   \<and> length (mvKeys1 this) \<le> fst m")
    case True
    from c have "ReconstructLine invert LineTriangulate this vLineMatches K R21 t21 out = Inl OutOfRange"
      unfolding if_P [OF True] .
    with True out_of_range_sample show ?thesis by (auto simp: not_less)
  next
    case False
    from c have "\<exists>s'. ReconstructLine invert LineTriangulate this vLineMatches K R21 t21 out = Inr s'
                    \<and> line_lengths (length (mvKeys1 this)) s'"
      unfolding if_not_P [OF False] .
    then obtain s' where "ReconstructLine invert LineTriangulate this vLineMatches K R21 t21 out = Inr s'"
      and "line_lengths (length (mvKeys1 this)) s'" by blast
    with False out_of_range_sample show ?thesis by (auto simp: line_lengths_def)
  qed
qed

text \<open>
  The sample match passes the tests. With two point features the stores at index 1 are in
  bounds; with one point feature (and two lines) they are not.
\<close>

theorem ReconstructLine_output_bounds_witness:
  "ReconstructLine_endpoints (\<lambda>M. M) line_triangulate_sample (lines_sample 2) I3 I3 (- 3, 0, 0) (1, 0)
     = Some ((3 / 2, 0, 3 / 2), (2, 1, 1)) \<and>
   length (mvKeys1 (lines_sample 2)) = 2 \<and>
   ReconstructLine (\<lambda>M. M) line_triangulate_sample (lines_sample 2) [(1, 0)] I3 I3 (- 3, 0, 0)
       \<lparr> vLineS3D = [], vLineE3D = [], vbLineTriangulated = [] \<rparr>
     = Inr \<lparr> vLineS3D = [(0, 0, 0), (3 / 2, 0, 3 / 2)], vLineE3D = [(0, 0, 0), (2, 1, 1)],
             vbLineTriangulated = [False, True] \<rparr> \<and>
   length (mvKeys1 (lines_sample 1)) = 1 \<and>
   length (mvKeyLines1 (lines_sample 1)) = 2 \<and>
   ReconstructLine (\<lambda>M. M) line_triangulate_sample (lines_sample 1) [(1, 0)] I3 I3 (- 3, 0, 0)
       \<lparr> vLineS3D = [], vLineE3D = [], vbLineTriangulated = [] \<rparr> = Inl OutOfRange"
proof -
  have r2: "\<forall>m \<in> set [(1::nat, 0::nat)].
             fst m < length (mvKeyLines1 (lines_sample 2)) \<and> snd m < length (mvKeyLines2 (lines_sample 2))
             \<and> fst m < length (mvKeyLineFunctions1 (lines_sample 2))
             \<and> snd m < length (mvKeyLineFunctions2 (lines_sample 2))"
    by (simp add: lines_sample_sizes)
  have r1: "\<forall>m \<in> set [(1::nat, 0::nat)].
             fst m < length (mvKeyLines1 (lines_sample 1)) \<and> snd m < length (mvKeyLines2 (lines_sample 1))
             \<and> fst m < length (mvKeyLineFunctions1 (lines_sample 1))
             \<and> snd m < length (mvKeyLineFunctions2 (lines_sample 1))"
    by (simp add: lines_sample_sizes)
  show ?thesis
    using ReconstructLine_output_bounds [OF r2, of "\<lambda>M. M" line_triangulate_sample I3 I3 "(- 3, 0, 0)"
             "\<lparr> vLineS3D = [], vLineE3D = [], vbLineTriangulated = [] \<rparr>"]
          ReconstructLine_output_bounds [OF r1, of "\<lambda>M. M" line_triangulate_sample I3 I3 "(- 3, 0, 0)"
             "\<lparr> vLineS3D = [], vLineE3D = [], vbLineTriangulated = [] \<rparr>"]
          in_range_sample endpoints_sample [of 2]
    by (simp add: lines_sample_sizes)
qed

subsection \<open>Keyframe culling\<close>

lemma upt_10: "[0..<10] = [0, 1, 2, 3, 4, 5, 6, 7, 8, 9]"
  by (simp add: upt_rec)

lemma count_observers_lower:
  assumes "count_observers w pKF scaleLevel thObs obs nObs = Inr r" and "nObs < thObs"
  shows "min thObs (nObs + int (length (filter (finer_observer w pKF scaleLevel) obs))) \<le> r"
  using assms
proof (induction w pKF scaleLevel thObs obs nObs rule: count_observers.induct)
  case (1 w pKF scaleLevel thObs nObs)
  then show ?case by simp
next
  case (2 w pKF scaleLevel thObs pKFi idx rest nObs)
  let ?P = "finer_observer w pKF scaleLevel"
  show ?case
  proof (cases "pKFi = pKF")
    case True
    then have np: "\<not> ?P (pKFi, idx)" by (simp add: finer_observer_def)
    from True 2 np show ?thesis by simp
  next
    case False
    note ne = this
    show ?thesis
    proof (cases "length (kf_features (keyframes w pKFi)) \<le> idx")
      case True
      with ne "2.prems" show ?thesis by simp
    next
      case False
      note inr = this
      let ?lev = "ft_octave (kf_features (keyframes w pKFi) ! idx)"
      show ?thesis
      proof (cases "?lev \<le> scaleLevel + 1")
        case True
        note le = this
        have f: "int (length (filter ?P ((pKFi, idx) # rest))) \<le> 1 + int (length (filter ?P rest))"
          by simp
        show ?thesis
        proof (cases "nObs + 1 \<ge> thObs")
          case True
          with ne inr le "2.prems" have "r = nObs + 1" by (simp add: Let_def)
          with True show ?thesis by simp
        next
          case False
          with ne inr le "2.prems"
          have rec: "count_observers w pKF scaleLevel thObs rest (nObs + 1) = Inr r"
            by (simp add: Let_def)
          have "min thObs (nObs + 1 + int (length (filter ?P rest))) \<le> r"
            using "2.IH"(2) [OF ne inr refl le refl False rec] False by simp
          with f show ?thesis by (simp add: min_def split: if_splits)
        qed
      next
        case False
        then have np: "\<not> ?P (pKFi, idx)" by (simp add: finer_observer_def)
        from False ne inr "2.prems"
        have rec: "count_observers w pKF scaleLevel thObs rest nObs = Inr r"
          by (simp add: Let_def)
        have "min thObs (nObs + int (length (filter ?P rest))) \<le> r"
          using "2.IH"(3) [OF ne inr refl False rec "2.prems"(2)] .
        with np show ?thesis by simp
      qed
    qed
  qed
qed

lemma count_observers_total:
  assumes "\<forall>ob \<in> set obs. snd ob < length (kf_features (keyframes w (fst ob)))"
  shows "\<exists>r. count_observers w pKF scaleLevel thObs obs nObs = Inr r"
  using assms
  by (induction w pKF scaleLevel thObs obs nObs rule: count_observers.induct)
     (auto simp: Let_def)

lemma observed_more_than_three:
  assumes "pKF \<in> fst ` set obs" and "3 \<le> length (filter (finer_observer w pKF lev) obs)"
  shows "4 \<le> length obs"
proof -
  let ?own = "\<lambda>ob. fst ob = pKF"
  from assms(1) obtain ob where "ob \<in> set obs" "?own ob" by auto
  then have "filter ?own obs \<noteq> []" by (auto simp: filter_empty_conv)
  then have own: "1 \<le> length (filter ?own obs)" by (cases "filter ?own obs") simp_all
  have "length (filter (finer_observer w pKF lev) obs) \<le> length (filter (\<lambda>ob. \<not> ?own ob) obs)"
  proof -
    have "filter (finer_observer w pKF lev) obs
            = filter (finer_observer w pKF lev) (filter (\<lambda>ob. \<not> ?own ob) obs)"
      by (auto simp: finer_observer_def intro: filter_cong)
    then show ?thesis by (metis length_filter_le)
  qed
  moreover have "length (filter ?own obs) + length (filter (\<lambda>ob. \<not> ?own ob) obs) = length obs"
    by (rule sum_length_filter_compl)
  ultimately show ?thesis using own assms(2) by linarith
qed

lemma KeyFrameCulling_feature_counts:
  assumes "KeyFrameCulling_feature w mbMono pKF i f (nR, nM) = Inr (nR', nM')"
      and "feature_consistent w pKF f"
  shows "nM' = nM + (if valid_feature w mbMono pKF f then 1 else 0)
         \<and> nR + (if well_observed w mbMono pKF f then 1 else 0) \<le> nR'"
proof (cases "ft_mapPoint f")
  case None
  with assms(1) show ?thesis
    by (simp add: KeyFrameCulling_feature_def valid_feature_def well_observed_def)
next
  case (Some pMP)
  note mp = this
  show ?thesis
  proof (cases "valid_feature w mbMono pKF f")
    case False
    with mp assms(1) show ?thesis
      by (auto simp: KeyFrameCulling_feature_def valid_feature_def well_observed_def Let_def
               split: if_splits)
  next
    case True
    note valid = this
    then have v: "\<not> mp_isBad (mappoints w pMP)"
      and d: "\<not> (\<not> mbMono \<and> (ft_depth f > mThDepth (keyframes w pKF) \<or> ft_depth f < 0))"
      using mp by (auto simp: valid_feature_def)
    let ?obs = "mp_GetObservations (mappoints w pMP)"
    show ?thesis
    proof (cases "mp_Observations (mappoints w pMP) > 3")
      case False
      with mp v d assms(1) have r: "nR' = nR" "nM' = nM + 1"
        by (auto simp: KeyFrameCulling_feature_def Let_def split: if_splits)
      have "\<not> well_observed w mbMono pKF f"
      proof
        assume "well_observed w mbMono pKF f"
        then have "3 \<le> length (filter (finer_observer w pKF (ft_octave f)) ?obs)"
          using mp by (simp add: well_observed_def)
        moreover from assms(2) mp have "pKF \<in> fst ` set ?obs"
          and "int (length ?obs) \<le> mp_Observations (mappoints w pMP)"
          by (simp_all add: feature_consistent_def)
        ultimately show False
          using False observed_more_than_three [of pKF ?obs w "ft_octave f"] by linarith
      qed
      with r valid show ?thesis by simp
    next
      case True
      from mp v d True assms(1) obtain nObs
        where c: "count_observers w pKF (ft_octave f) 3 ?obs 0 = Inr nObs"
          and r: "nM' = nM + 1" "nR' = (if nObs \<ge> 3 then nR + 1 else nR)"
        by (auto simp: KeyFrameCulling_feature_def Let_def split: sum.splits if_splits)
      have "well_observed w mbMono pKF f \<Longrightarrow> nObs \<ge> 3"
      proof -
        assume "well_observed w mbMono pKF f"
        then have "3 \<le> length (filter (finer_observer w pKF (ft_octave f)) ?obs)"
          using mp by (simp add: well_observed_def)
        with count_observers_lower [OF c] show "nObs \<ge> 3" by simp
      qed
      with r valid show ?thesis by auto
    qed
  qed
qed

lemma for_each_feature_counts:
  assumes "for_each (KeyFrameCulling_feature w mbMono pKF) i fs (nR, nM) = Inr (nR', nM')"
      and "\<forall>f \<in> set fs. feature_consistent w pKF f"
  shows "nM' = nM + int (length (filter (valid_feature w mbMono pKF) fs))
         \<and> nR + int (length (filter (well_observed w mbMono pKF) fs)) \<le> nR'"
  using assms
proof (induction fs arbitrary: i nR nM)
  case Nil
  then show ?case by simp
next
  case (Cons f fs)
  from Cons.prems(1) obtain nR1 nM1
    where b: "KeyFrameCulling_feature w mbMono pKF i f (nR, nM) = Inr (nR1, nM1)"
      and r: "for_each (KeyFrameCulling_feature w mbMono pKF) (Suc i) fs (nR1, nM1) = Inr (nR', nM')"
    by (auto split: sum.splits)
  from Cons.prems(2) have cf: "feature_consistent w pKF f"
    and cfs: "\<forall>f \<in> set fs. feature_consistent w pKF f" by simp_all
  note h = KeyFrameCulling_feature_counts [OF b cf] Cons.IH [OF r cfs]
  then show ?case by auto
qed

lemma for_each_feature_total:
  assumes "observations_in_range w"
  shows "\<exists>r. for_each (KeyFrameCulling_feature w mbMono pKF) i fs st = Inr r"
proof (induction fs arbitrary: i st)
  case Nil
  show ?case by simp
next
  case (Cons f fs)
  have "\<exists>st'. KeyFrameCulling_feature w mbMono pKF i f st = Inr st'"
  proof (cases "ft_mapPoint f")
    case None
    then show ?thesis by (simp add: KeyFrameCulling_feature_def)
  next
    case (Some pMP)
    have "\<forall>ob \<in> set (mp_GetObservations (mappoints w pMP)).
            snd ob < length (kf_features (keyframes w (fst ob)))"
      using assms by (simp add: observations_in_range_def)
    from count_observers_total [OF this, of pKF "ft_octave f" 3 0]
    obtain r where "count_observers w pKF (ft_octave f) 3 (mp_GetObservations (mappoints w pMP)) 0 = Inr r"
      by blast
    with Some show ?thesis by (simp add: KeyFrameCulling_feature_def Let_def)
  qed
  then obtain st' where "KeyFrameCulling_feature w mbMono pKF i f st = Inr st'" by blast
  with Cons.IH [of "Suc i" st'] show ?case by simp
qed


lemma count_observers_upper:
  assumes "count_observers w pKF scaleLevel thObs obs nObs = Inr r"
  shows "r \<le> nObs + int (length (filter (\<lambda>ob. fst ob \<noteq> pKF) obs))"
  using assms
proof (induction w pKF scaleLevel thObs obs nObs rule: count_observers.induct)
  case (1 w pKF scaleLevel thObs nObs)
  then show ?case by simp
next
  case (2 w pKF scaleLevel thObs pKFi idx rest nObs)
  show ?case
  proof (cases "pKFi = pKF")
    case True
    with 2 show ?thesis by simp
  next
    case False
    note ne = this
    show ?thesis
    proof (cases "length (kf_features (keyframes w pKFi)) \<le> idx")
      case True
      with ne "2.prems" show ?thesis by simp
    next
      case False
      note inr = this
      show ?thesis
      proof (cases "ft_octave (kf_features (keyframes w pKFi) ! idx) \<le> scaleLevel + 1")
        case True
        note le = this
        show ?thesis
        proof (cases "nObs + 1 \<ge> thObs")
          case True
          with ne inr le "2.prems" show ?thesis by (simp add: Let_def)
        next
          case False
          from False ne inr le "2.prems"
          have rec: "count_observers w pKF scaleLevel thObs rest (nObs + 1) = Inr r"
            by (simp add: Let_def)
          have "r \<le> nObs + 1 + int (length (filter (\<lambda>ob. fst ob \<noteq> pKF) rest))"
            using "2.IH"(2) [OF ne inr refl le refl False rec] .
          with ne show ?thesis by simp
        qed
      next
        case False
        from False ne inr "2.prems"
        have rec: "count_observers w pKF scaleLevel thObs rest nObs = Inr r"
          by (simp add: Let_def)
        have "r \<le> nObs + int (length (filter (\<lambda>ob. fst ob \<noteq> pKF) rest))"
          using "2.IH"(3) [OF ne inr refl False rec] .
        with ne show ?thesis by simp
      qed
    qed
  qed
qed

lemma KeyFrameCulling_feature_upper:
  assumes "KeyFrameCulling_feature w mbMono pKF i f (nR, nM) = Inr (nR', nM')"
  shows "nM' = nM + (if valid_feature w mbMono pKF f then 1 else 0)
         \<and> nR' \<le> nR + (if observed_by_others w mbMono pKF f then 1 else 0)"
proof (cases "ft_mapPoint f")
  case None
  with assms show ?thesis
    by (simp add: KeyFrameCulling_feature_def valid_feature_def observed_by_others_def)
next
  case (Some pMP)
  note mp = this
  show ?thesis
  proof (cases "valid_feature w mbMono pKF f")
    case False
    with mp assms show ?thesis
      by (auto simp: KeyFrameCulling_feature_def valid_feature_def observed_by_others_def Let_def
               split: if_splits)
  next
    case True
    note valid = this
    then have v: "\<not> mp_isBad (mappoints w pMP)"
      and d: "\<not> (\<not> mbMono \<and> (ft_depth f > mThDepth (keyframes w pKF) \<or> ft_depth f < 0))"
      using mp by (auto simp: valid_feature_def)
    let ?obs = "mp_GetObservations (mappoints w pMP)"
    show ?thesis
    proof (cases "mp_Observations (mappoints w pMP) > 3")
      case False
      with mp v d assms have "nR' = nR" "nM' = nM + 1"
        by (auto simp: KeyFrameCulling_feature_def Let_def split: if_splits)
      with valid show ?thesis by simp
    next
      case True
      from mp v d True assms obtain nObs
        where c: "count_observers w pKF (ft_octave f) 3 ?obs 0 = Inr nObs"
          and r: "nM' = nM + 1" "nR' = (if nObs \<ge> 3 then nR + 1 else nR)"
        by (auto simp: KeyFrameCulling_feature_def Let_def split: sum.splits if_splits)
      have "observed_by_others w mbMono pKF f" if "nObs \<ge> 3"
      proof -
        from count_observers_upper [OF c] that
        have "3 \<le> length (filter (\<lambda>ob. fst ob \<noteq> pKF) ?obs)" by simp
        with valid mp show ?thesis by (simp add: observed_by_others_def)
      qed
      with r valid show ?thesis by auto
    qed
  qed
qed

lemma for_each_feature_upper:
  assumes "for_each (KeyFrameCulling_feature w mbMono pKF) i fs (nR, nM) = Inr (nR', nM')"
  shows "nM' = nM + int (length (filter (valid_feature w mbMono pKF) fs))
         \<and> nR' \<le> nR + int (length (filter (observed_by_others w mbMono pKF) fs))"
  using assms
proof (induction fs arbitrary: i nR nM)
  case Nil
  then show ?case by simp
next
  case (Cons f fs)
  from Cons.prems obtain nR1 nM1
    where b: "KeyFrameCulling_feature w mbMono pKF i f (nR, nM) = Inr (nR1, nM1)"
      and r: "for_each (KeyFrameCulling_feature w mbMono pKF) (Suc i) fs (nR1, nM1) = Inr (nR', nM')"
    by (auto split: sum.splits)
  note h = KeyFrameCulling_feature_upper [OF b] Cons.IH [OF r]
  then show ?case by auto
qed

lemma same_static_refl: "same_static w w"
  by (simp add: same_static_def)

lemma same_static_trans: "same_static w w1 \<Longrightarrow> same_static w1 w2 \<Longrightarrow> same_static w w2"
  by (simp add: same_static_def)

lemma same_static_SetBadFlag: "same_static w (SetBadFlag pKF w)"
  by (simp add: same_static_def SetBadFlag_def)

lemma static_congruence:
  assumes "same_static w w'"
  shows "valid_feature w' mbMono pKF = valid_feature w mbMono pKF"
    and "well_observed w' mbMono pKF = well_observed w mbMono pKF"
    and "observations_consistent w' pKF = observations_consistent w pKF"
    and "mostly_well_observed w' mbMono pKF = mostly_well_observed w mbMono pKF"
    and "observations_in_range w' = observations_in_range w"
    and "mnId (keyframes w' pKF) = mnId (keyframes w pKF)"
    and "mostly_observed_by_others w' mbMono pKF = mostly_observed_by_others w mbMono pKF"
proof -
  from assms have m: "mappoints w' = mappoints w"
    and k: "\<And>k. kf_features (keyframes w' k) = kf_features (keyframes w k)"
    and t: "\<And>k. mThDepth (keyframes w' k) = mThDepth (keyframes w k)"
    and n: "\<And>k. mnId (keyframes w' k) = mnId (keyframes w k)"
    by (simp_all add: same_static_def)
  show v: "valid_feature w' mbMono pKF = valid_feature w mbMono pKF"
    by (intro ext) (simp add: valid_feature_def m t split: option.splits)
  have f: "\<And>lev. finer_observer w' pKF lev = finer_observer w pKF lev"
    by (intro ext) (simp add: finer_observer_def k)
  show wo: "well_observed w' mbMono pKF = well_observed w mbMono pKF"
    by (intro ext) (simp add: well_observed_def v f m split: option.splits)
  show "observations_consistent w' pKF = observations_consistent w pKF"
    unfolding observations_consistent_def feature_consistent_def m k ..
  show "mostly_well_observed w' mbMono pKF = mostly_well_observed w mbMono pKF"
    by (simp add: mostly_well_observed_def v wo k)
  show "observations_in_range w' = observations_in_range w"
    by (simp add: observations_in_range_def k m)
  show "mnId (keyframes w' pKF) = mnId (keyframes w pKF)" by (rule n)
  have "observed_by_others w' mbMono pKF = observed_by_others w mbMono pKF"
    by (intro ext) (simp add: observed_by_others_def v m split: option.splits)
  then show "mostly_observed_by_others w' mbMono pKF = mostly_observed_by_others w mbMono pKF"
    by (simp add: mostly_observed_by_others_def v k)
qed

lemma KeyFrameCulling_body_cases:
  assumes "observations_in_range w"
  shows "\<exists>w'. KeyFrameCulling_body mbMono i pKF w = Inr w'
           \<and> (w' = w \<or> w' = SetBadFlag pKF w \<and> mnId (keyframes w pKF) \<noteq> 0
                          \<and> mostly_observed_by_others w mbMono pKF)
           \<and> (mnId (keyframes w pKF) \<noteq> 0 \<and> observations_consistent w pKF
                \<and> mostly_well_observed w mbMono pKF \<longrightarrow> w' = SetBadFlag pKF w)"
proof (cases "mnId (keyframes w pKF) = 0")
  case True
  then show ?thesis by (simp add: KeyFrameCulling_body_def)
next
  case False
  let ?fs = "kf_features (keyframes w pKF)"
  from for_each_feature_total [OF assms, of mbMono pKF 0 ?fs "(0, 0)"]
  obtain nR nM where l: "for_each (KeyFrameCulling_feature w mbMono pKF) 0 ?fs (0, 0) = Inr (nR, nM)"
    by (metis surj_pair)
  have flag: "real_of_int nR > 0.9 * real_of_int nM"
    if c: "observations_consistent w pKF" and m: "mostly_well_observed w mbMono pKF"
  proof -
    from c have "\<forall>f \<in> set ?fs. feature_consistent w pKF f"
      by (simp add: observations_consistent_def)
    from for_each_feature_counts [OF l this]
    have nM: "nM = int (length (filter (valid_feature w mbMono pKF) ?fs))"
      and nR: "int (length (filter (well_observed w mbMono pKF) ?fs)) \<le> nR" by simp_all
    from m have "real (length (filter (well_observed w mbMono pKF) ?fs))
                   > 0.9 * real (length (filter (valid_feature w mbMono pKF) ?fs))"
      by (simp add: mostly_well_observed_def)
    moreover have "real (length (filter (well_observed w mbMono pKF) ?fs)) \<le> real_of_int nR"
      using nR by linarith
    ultimately show ?thesis unfolding nM by simp
  qed
  have only: "mostly_observed_by_others w mbMono pKF"
    if g: "real_of_int nR > 0.9 * real_of_int nM"
  proof -
    from for_each_feature_upper [OF l]
    have nM: "nM = int (length (filter (valid_feature w mbMono pKF) ?fs))"
      and nR: "nR \<le> int (length (filter (observed_by_others w mbMono pKF) ?fs))" by simp_all
    have "real_of_int nR \<le> real (length (filter (observed_by_others w mbMono pKF) ?fs))"
      using nR by linarith
    with g show ?thesis unfolding mostly_observed_by_others_def nM by simp
  qed
  show ?thesis
    using False l flag only by (auto simp: KeyFrameCulling_body_def)
qed

lemma for_each_KeyFrameCulling:
  assumes "observations_in_range w"
  shows "\<exists>w'. for_each (KeyFrameCulling_body mbMono) i vpLocalKeyFrames w = Inr w'
           \<and> same_static w w'
           \<and> (\<forall>k. kf_mbBad (keyframes w k) \<longrightarrow> kf_mbBad (keyframes w' k))
           \<and> (\<forall>k. kf_mbBad (keyframes w' k) \<and> \<not> kf_mbBad (keyframes w k)
                  \<longrightarrow> k \<in> set vpLocalKeyFrames \<and> mnId (keyframes w k) \<noteq> 0
                      \<and> mostly_observed_by_others w mbMono k)
           \<and> (\<forall>pKF \<in> set vpLocalKeyFrames.
                  mnId (keyframes w pKF) \<noteq> 0 \<and> observations_consistent w pKF
                  \<and> mostly_well_observed w mbMono pKF \<longrightarrow> kf_mbBad (keyframes w' pKF))"
  using assms
proof (induction vpLocalKeyFrames arbitrary: i w)
  case Nil
  then show ?case by (simp add: same_static_refl)
next
  case (Cons pKF rest)
  from KeyFrameCulling_body_cases [OF Cons.prems, of mbMono i pKF]
  obtain w1 where b: "KeyFrameCulling_body mbMono i pKF w = Inr w1"
    and c: "w1 = w \<or> w1 = SetBadFlag pKF w \<and> mnId (keyframes w pKF) \<noteq> 0
                       \<and> mostly_observed_by_others w mbMono pKF"
    and f: "mnId (keyframes w pKF) \<noteq> 0 \<and> observations_consistent w pKF
                \<and> mostly_well_observed w mbMono pKF \<longrightarrow> w1 = SetBadFlag pKF w"
    by blast
  from c have st: "same_static w w1"
    by (auto simp: same_static_refl same_static_SetBadFlag)
  from c have mono1: "\<And>k. kf_mbBad (keyframes w k) \<Longrightarrow> kf_mbBad (keyframes w1 k)"
    by (auto simp: SetBadFlag_def)
  from c have new1: "\<And>k. kf_mbBad (keyframes w1 k) \<Longrightarrow> \<not> kf_mbBad (keyframes w k)
                        \<Longrightarrow> k = pKF \<and> mnId (keyframes w k) \<noteq> 0
                            \<and> mostly_observed_by_others w mbMono k"
    by (auto simp: SetBadFlag_def split: if_splits)
  from f have flag1: "mnId (keyframes w pKF) \<noteq> 0 \<Longrightarrow> observations_consistent w pKF
                \<Longrightarrow> mostly_well_observed w mbMono pKF \<Longrightarrow> kf_mbBad (keyframes w1 pKF)"
    by (auto simp: SetBadFlag_def)
  note cg = static_congruence [OF st]
  from Cons.prems cg(5) have r1: "observations_in_range w1" by simp
  from Cons.IH [OF r1, of "Suc i"]
  obtain w' where l: "for_each (KeyFrameCulling_body mbMono) (Suc i) rest w1 = Inr w'"
    and st': "same_static w1 w'"
    and mono': "\<forall>k. kf_mbBad (keyframes w1 k) \<longrightarrow> kf_mbBad (keyframes w' k)"
    and new': "\<forall>k. kf_mbBad (keyframes w' k) \<and> \<not> kf_mbBad (keyframes w1 k)
                  \<longrightarrow> k \<in> set rest \<and> mnId (keyframes w1 k) \<noteq> 0
                      \<and> mostly_observed_by_others w1 mbMono k"
    and flag': "\<forall>p \<in> set rest.
                  mnId (keyframes w1 p) \<noteq> 0 \<and> observations_consistent w1 p
                  \<and> mostly_well_observed w1 mbMono p \<longrightarrow> kf_mbBad (keyframes w' p)"
    by blast
  have res: "for_each (KeyFrameCulling_body mbMono) i (pKF # rest) w = Inr w'"
    using b l by simp
  have A: "same_static w w'" using st st' by (rule same_static_trans)
  have B: "\<forall>k. kf_mbBad (keyframes w k) \<longrightarrow> kf_mbBad (keyframes w' k)"
    using mono1 mono' by blast
  have C: "\<forall>k. kf_mbBad (keyframes w' k) \<and> \<not> kf_mbBad (keyframes w k)
                  \<longrightarrow> k \<in> set (pKF # rest) \<and> mnId (keyframes w k) \<noteq> 0
                      \<and> mostly_observed_by_others w mbMono k"
  proof (intro allI impI)
    fix k
    assume h: "kf_mbBad (keyframes w' k) \<and> \<not> kf_mbBad (keyframes w k)"
    show "k \<in> set (pKF # rest) \<and> mnId (keyframes w k) \<noteq> 0
            \<and> mostly_observed_by_others w mbMono k"
    proof (cases "kf_mbBad (keyframes w1 k)")
      case True
      from new1 [OF True] h have "k = pKF" and "mnId (keyframes w k) \<noteq> 0"
        and "mostly_observed_by_others w mbMono k" by blast+
      then show ?thesis by simp
    next
      case False
      with h new' have "k \<in> set rest \<and> mnId (keyframes w1 k) \<noteq> 0
                          \<and> mostly_observed_by_others w1 mbMono k" by blast
      then show ?thesis
        using static_congruence(6) [OF st, of k] static_congruence(7) [OF st, of mbMono k]
        by simp
    qed
  qed
  have D: "\<forall>p \<in> set (pKF # rest).
                  mnId (keyframes w p) \<noteq> 0 \<and> observations_consistent w p
                  \<and> mostly_well_observed w mbMono p \<longrightarrow> kf_mbBad (keyframes w' p)"
  proof (intro ballI impI)
    fix p
    assume p: "p \<in> set (pKF # rest)"
      and h: "mnId (keyframes w p) \<noteq> 0 \<and> observations_consistent w p
                  \<and> mostly_well_observed w mbMono p"
    show "kf_mbBad (keyframes w' p)"
    proof (cases "p = pKF")
      case True
      with h flag1 have "kf_mbBad (keyframes w1 p)" by simp
      with mono' show ?thesis by blast
    next
      case False
      with p have "p \<in> set rest" by simp
      moreover from h have "mnId (keyframes w1 p) \<noteq> 0 \<and> observations_consistent w1 p
                  \<and> mostly_well_observed w1 mbMono p"
        using static_congruence(3) [OF st, of p] static_congruence(6) [OF st, of p]
          static_congruence(4) [OF st, of mbMono p]
        by simp
      ultimately show ?thesis using flag' by blast
    qed
  qed
  from res A B C D show ?case by blast
qed

text \<open>
  Claim C7, as far as the code has it. On a map whose observations name existing
  features, \<^verbatim>\<open>KeyFrameCulling\<close> returns. The keyframes it newly flags bad are among the
  covisible keyframes, are not the keyframe of id 0, and have strictly more than 90% of
  their valid map points observed by at least three other keyframes. Among the covisible
  keyframes other than the keyframe of id 0, each keyframe of which strictly more than 90%
  of the valid map points are observed by at least three other keyframes at the same or a
  finer scale is flagged bad (for a keyframe that is among the observers of its own map
  points, whose \<^verbatim>\<open>Observations()\<close> is at least the number of their observers).
\<close>

theorem KeyFrameCulling_flags_well_observed:
  assumes "observations_in_range w"
  shows "\<exists>w'. KeyFrameCulling mbMono vpLocalKeyFrames w = Inr w'
           \<and> (\<forall>k. kf_mbBad (keyframes w' k) \<and> \<not> kf_mbBad (keyframes w k)
                  \<longrightarrow> k \<in> set vpLocalKeyFrames \<and> mnId (keyframes w k) \<noteq> 0
                      \<and> mostly_observed_by_others w mbMono k)
           \<and> (\<forall>pKF \<in> set vpLocalKeyFrames.
                  mnId (keyframes w pKF) \<noteq> 0 \<and> observations_consistent w pKF
                  \<and> mostly_well_observed w mbMono pKF \<longrightarrow> kf_mbBad (keyframes w' pKF))"
  using for_each_KeyFrameCulling [OF assms, of mbMono 0 vpLocalKeyFrames]
  unfolding KeyFrameCulling_def by blast

text \<open>
  Two of the sample maps, for a monocular mapper whose current keyframe has keyframe 1 as
  its only covisible keyframe. In the third map the only map point of keyframe 1 is seen
  by three other keyframes one level finer: keyframe 1 is flagged bad and keyframe 2,
  which is not covisible, is not. In the second map nine of the ten map points of
  keyframe 1 are seen by three other keyframes and the tenth by none: keyframe 1 is not
  flagged.
\<close>

theorem KeyFrameCulling_flags_well_observed_witness:
  "observations_in_range world_finer \<and>
   mnId (keyframes world_finer 1) = 1 \<and>
   observations_consistent world_finer 1 \<and>
   filter (valid_feature world_finer True 1) (kf_features (keyframes world_finer 1))
     = kf_features (keyframes world_finer 1) \<and>
   filter (well_observed world_finer True 1) (kf_features (keyframes world_finer 1))
     = kf_features (keyframes world_finer 1) \<and>
   mostly_well_observed world_finer True 1 \<and>
   map_sum id (\<lambda>w. (kf_mbBad (keyframes w 1), kf_mbBad (keyframes w 2)))
       (KeyFrameCulling True [1] world_finer) = Inr (True, False) \<and>
   observations_in_range world_ninety \<and>
   length (filter (valid_feature world_ninety True 1) (kf_features (keyframes world_ninety 1)))
     = 10 \<and>
   length (filter (observed_by_others world_ninety True 1)
             (kf_features (keyframes world_ninety 1))) = 9 \<and>
   \<not> mostly_observed_by_others world_ninety True 1 \<and>
   map_sum id (\<lambda>w. kf_mbBad (keyframes w 1)) (KeyFrameCulling True [1] world_ninety)
     = Inr False"
proof -
  have r: "observations_in_range world_finer"
    by (simp add: observations_in_range_def world_finer_def)
  have c: "observations_consistent world_finer 1"
    by (simp add: observations_consistent_def feature_consistent_def world_finer_def)
  have v: "filter (valid_feature world_finer True 1) (kf_features (keyframes world_finer 1))
     = kf_features (keyframes world_finer 1)"
    by (simp add: valid_feature_def world_finer_def)
  have o: "filter (well_observed world_finer True 1) (kf_features (keyframes world_finer 1))
     = kf_features (keyframes world_finer 1)"
    by (simp add: well_observed_def valid_feature_def finer_observer_def world_finer_def)
  have m: "mostly_well_observed world_finer True 1"
    unfolding mostly_well_observed_def v o by (simp add: world_finer_def)
  have i: "mnId (keyframes world_finer 1) = 1" "\<not> kf_mbBad (keyframes world_finer 2)"
    by (simp_all add: world_finer_def)
  from KeyFrameCulling_flags_well_observed [OF r, of True "[1]"]
  obtain w' where k: "KeyFrameCulling True [1] world_finer = Inr w'"
    and g: "\<forall>k. kf_mbBad (keyframes w' k) \<and> \<not> kf_mbBad (keyframes world_finer k)
                  \<longrightarrow> k \<in> set [1] \<and> mnId (keyframes world_finer k) \<noteq> 0
                      \<and> mostly_observed_by_others world_finer True k"
    and f: "\<forall>pKF \<in> set [1].
                  mnId (keyframes world_finer pKF) \<noteq> 0 \<and> observations_consistent world_finer pKF
                  \<and> mostly_well_observed world_finer True pKF \<longrightarrow> kf_mbBad (keyframes w' pKF)"
    by blast
  from f c m i have b1: "kf_mbBad (keyframes w' 1)" by simp
  from g [rule_format, of 2] i have b2: "\<not> kf_mbBad (keyframes w' 2)" by auto
  have r9: "observations_in_range world_ninety"
    by (simp add: observations_in_range_def world_ninety_def)
  have v9: "length (filter (valid_feature world_ninety True 1)
                      (kf_features (keyframes world_ninety 1))) = 10"
    by (simp add: valid_feature_def world_ninety_def upt_10)
  have o9: "length (filter (observed_by_others world_ninety True 1)
                      (kf_features (keyframes world_ninety 1))) = 9"
    by (simp add: observed_by_others_def valid_feature_def world_ninety_def upt_10)
  have m9: "\<not> mostly_observed_by_others world_ninety True 1"
    unfolding mostly_observed_by_others_def v9 o9 by simp
  have i9: "\<not> kf_mbBad (keyframes world_ninety 1)"
    by (simp add: world_ninety_def)
  from KeyFrameCulling_flags_well_observed [OF r9, of True "[1]"]
  obtain w9 where k9: "KeyFrameCulling True [1] world_ninety = Inr w9"
    and g9: "\<forall>k. kf_mbBad (keyframes w9 k) \<and> \<not> kf_mbBad (keyframes world_ninety k)
                  \<longrightarrow> k \<in> set [1] \<and> mnId (keyframes world_ninety k) \<noteq> 0
                      \<and> mostly_observed_by_others world_ninety True k"
    by blast
  from g9 [rule_format, of 1] i9 m9 have b9: "\<not> kf_mbBad (keyframes w9 1)" by blast
  from r c v o m i k b1 b2 r9 v9 o9 m9 k9 b9 show ?thesis by simp
qed

text \<open>
  The claim as the specification words it fails on the first two sample maps, for a
  monocular mapper whose current keyframe has keyframe 1 as its only covisible keyframe.
  In the first map the only map point of keyframe 1 has no other observer at the same or
  a finer scale (its three other observers are one level coarser), and
  \<^verbatim>\<open>KeyFrameCulling\<close> flags keyframe 1 bad: the test is \<^verbatim>\<open>scaleLeveli<=scaleLevel+1\<close>. In
  the second map nine of the ten map points of keyframe 1 have three other observers at
  the same scale, the loop counts 9 redundant points out of 10, and keyframe 1 is not
  flagged: the test is \<^verbatim>\<open>nRedundantObservations>0.9*nMPs\<close>.
\<close>

theorem KeyFrameCulling_against_its_comment:
  "map_sum id (\<lambda>w. kf_mbBad (keyframes w 1)) (KeyFrameCulling True [1] world_coarser) = Inr True \<and>
   mnId (keyframes world_coarser 1) = 1 \<and>
   map ft_mapPoint (kf_features (keyframes world_coarser 1)) = [Some 0] \<and>
   map ft_octave (kf_features (keyframes world_coarser 1)) = [0] \<and>
   filter (\<lambda>(k, i). k \<noteq> 1 \<and> ft_octave (kf_features (keyframes world_coarser k) ! i) \<le> 0)
          (mp_GetObservations (mappoints world_coarser 0)) = [] \<and>
   map_sum id (\<lambda>w. kf_mbBad (keyframes w 1)) (KeyFrameCulling True [1] world_ninety) = Inr False \<and>
   for_each (KeyFrameCulling_feature world_ninety True 1) 0
       (kf_features (keyframes world_ninety 1)) (0, 0) = Inr (9, 10) \<and>
   length (filter (\<lambda>p. 3 \<le> length (filter (\<lambda>(k, i). k \<noteq> 1
                      \<and> ft_octave (kf_features (keyframes world_ninety k) ! i) \<le> 0)
                  (mp_GetObservations (mappoints world_ninety p)))) [0..<10]) = 9"
  by (simp add: KeyFrameCulling_def KeyFrameCulling_body_def KeyFrameCulling_feature_def
        SetBadFlag_def world_coarser_def world_ninety_def upt_10 Let_def)

subsection \<open>Stop and release of the local mapper\<close>

text \<open>
  Claim C8, as the code has it. On a mapper whose \<^verbatim>\<open>Run\<close> loop has not finished,
  \<^verbatim>\<open>Release\<close> after \<^verbatim>\<open>RequestStop\<close> empties the keyframe queue and puts
  \<^verbatim>\<open>mbStopped\<close> and \<^verbatim>\<open>mbStopRequested\<close> back to their constructor value; every other
  flag keeps the value it had, except \<^verbatim>\<open>mbAbortBA\<close>, which \<^verbatim>\<open>RequestStop\<close> set and
  \<^verbatim>\<open>Release\<close> does not clear.
\<close>

theorem Release_after_RequestStop:
  assumes "\<not> mbFinished s"
  shows "Release (RequestStop s) =
           s\<lparr>mbStopped := False, mbStopRequested := False, mlNewKeyFrames := [], mbAbortBA := True\<rparr>"
  using assms by (simp add: Release_def RequestStop_def)

theorem Release_after_RequestStop_witness:
  "\<not> mbFinished (Run_enter (LocalMapping_new True)) \<and>
   Release (RequestStop (Run_enter (LocalMapping_new True))) =
     \<lparr> mbMonocular = True, mbResetRequested = False, mbFinishRequested = False,
       mbFinished = False, mbAbortBA = True, mbStopped = False, mbStopRequested = False,
       mbNotStop = False, mbAcceptKeyFrames = True, mlNewKeyFrames = [] \<rparr>"
  using Release_after_RequestStop [of "Run_enter (LocalMapping_new True)"]
  by (simp add: Run_enter_def LocalMapping_new_def)

text \<open>
  The claim as the specification words it fails: after \<^verbatim>\<open>RequestStop\<close> and \<^verbatim>\<open>Release\<close>
  on a running mapper \<^verbatim>\<open>mbAbortBA\<close> is still set, and on a freshly constructed mapper
  (\<^verbatim>\<open>mbFinished\<close> is initialised to true) \<^verbatim>\<open>Release\<close> returns at once and the stop
  request stays pending.
\<close>

theorem Release_after_RequestStop_not_fresh:
  "mbAbortBA (Release (RequestStop (Run_enter (LocalMapping_new True)))) \<and>
   \<not> mbAbortBA (LocalMapping_new True) \<and>
   mbStopRequested (Release (RequestStop (LocalMapping_new True))) \<and>
   \<not> mbStopRequested (LocalMapping_new True)"
  by (simp add: Release_def RequestStop_def Run_enter_def LocalMapping_new_def)

end
